theory Spec2Isabelle
  imports Main "HOL-Library.Word"
begin

unbundle bit_operations_syntax

section \<open>The JIT's IR node model (src/coreclr/jit/gentree.h)\<close>

text \<open>
  A shallow embedding of the parts of \<^verbatim>\<open>gentree.h\<close> that the properties below are about.
  Conventions:
  \<^item> a C++ struct is a record, and a derived struct (\<^verbatim>\<open>GenTreeUnOp : GenTree\<close>) is a record
    extension; a method that changes its object takes the object (\<^verbatim>\<open>this\<close>) as an
    argument and returns the updated object;
  \<^item> an operand slot \<^verbatim>\<open>GenTree*\<close> holds \<open>None\<close> for \<^verbatim>\<open>nullptr\<close> and otherwise the header of
    the node it points to;
  \<^item> the header is the checked (DEBUG) build: \<^verbatim>\<open>assert(c)\<close> is modelled as a failure, so a
    method with an assertion returns an \<open>option\<close> and \<open>None\<close> means that an assertion
    fired (or that the method would read outside an array);
  \<^item> what the header uses but other files define (the operator and type tables of
    \<^verbatim>\<open>gtlist.h\<close>/\<^verbatim>\<open>typelist.h\<close>, the register constants of \<^verbatim>\<open>target.h\<close>, the base
    constructor \<^verbatim>\<open>GenTree::GenTree(oper, type)\<close> of \<^verbatim>\<open>compiler.hpp\<close>) is a parameter.
\<close>

subsection \<open>GenTreeFlags\<close>

type_synonym GenTreeFlags = "32 word"

definition GTF_EMPTY :: GenTreeFlags where "GTF_EMPTY = 0"
definition GTF_ASG :: GenTreeFlags where "GTF_ASG = 0x00000001"
definition GTF_CALL :: GenTreeFlags where "GTF_CALL = 0x00000002"
definition GTF_EXCEPT :: GenTreeFlags where "GTF_EXCEPT = 0x00000004"
definition GTF_GLOB_REF :: GenTreeFlags where "GTF_GLOB_REF = 0x00000008"
definition GTF_ORDER_SIDEEFF :: GenTreeFlags where "GTF_ORDER_SIDEEFF = 0x00000010"

definition GTF_PERSISTENT_SIDE_EFFECTS :: GenTreeFlags where
  "GTF_PERSISTENT_SIDE_EFFECTS = GTF_ASG OR GTF_CALL"
definition GTF_SIDE_EFFECT :: GenTreeFlags where
  "GTF_SIDE_EFFECT = GTF_PERSISTENT_SIDE_EFFECTS OR GTF_EXCEPT"
definition GTF_GLOB_EFFECT :: GenTreeFlags where
  "GTF_GLOB_EFFECT = GTF_SIDE_EFFECT OR GTF_GLOB_REF"
definition GTF_ALL_EFFECT :: GenTreeFlags where
  "GTF_ALL_EFFECT = GTF_GLOB_EFFECT OR GTF_ORDER_SIDEEFF"

definition GTF_REVERSE_OPS :: GenTreeFlags where "GTF_REVERSE_OPS = 0x00000020"
definition GTF_COMMON_MASK :: GenTreeFlags where "GTF_COMMON_MASK = 0x0003FFFF"

text \<open>
  \<^verbatim>\<open>#define GTF_GLOBALLY_VISIBLE_SIDE_EFFECTS(flags)
     (((flags) & (GTF_CALL | GTF_EXCEPT)) ||
      (((flags) & (GTF_ASG | GTF_GLOB_REF)) == (GTF_ASG | GTF_GLOB_REF)))\<close>
\<close>

definition GTF_GLOBALLY_VISIBLE_SIDE_EFFECTS :: "GenTreeFlags \<Rightarrow> bool" where
  "GTF_GLOBALLY_VISIBLE_SIDE_EFFECTS flags \<longleftrightarrow>
     (flags AND (GTF_CALL OR GTF_EXCEPT)) \<noteq> 0 \<or>
     (flags AND (GTF_ASG OR GTF_GLOB_REF)) = (GTF_ASG OR GTF_GLOB_REF)"

subsection \<open>The node header (struct GenTree)\<close>

type_synonym genTreeOps = nat
type_synonym var_types = nat
type_synonym regNumber = nat
type_synonym regNumberSmall = "8 word"

datatype genRegTag = GT_REGTAG_NONE | GT_REGTAG_REG

text \<open>
  Modelled from the spec: \<^verbatim>\<open>ValueNum\<close> and \<^verbatim>\<open>ValueNumPair\<close> are declared in
  \<^verbatim>\<open>valuenum.h\<close>, which is not part of the header. A value number is an opaque number or
  the distinguished "no value number" \<open>NoVN\<close>; the pair holds a liberal and a conservative
  one, and the default-constructed pair "initializes both elements to NoVN" (the comment of
  \<^verbatim>\<open>GenTree::ClearVN\<close>).
\<close>

datatype ValueNum = NoVN | VN nat

record ValueNumPair =
  m_liberal :: ValueNum
  m_conservative :: ValueNum

definition ValueNumPair_default :: ValueNumPair where
  "ValueNumPair_default = \<lparr>m_liberal = NoVN, m_conservative = NoVN\<rparr>"

datatype ValueNumKind = VNK_Liberal | VNK_Conservative

record GenTree =
  gtOper :: genTreeOps
  gtType :: var_types
  gtRegTag :: genRegTag
  gtRegNum :: regNumberSmall
  gtFlags :: GenTreeFlags
  gtVNPair :: ValueNumPair

record GenTreeUnOp = GenTree +
  gtOp1 :: "GenTree option"

record GenTreeOp = GenTreeUnOp +
  gtOp2 :: "GenTree option"

subsection \<open>Side-effect flags: SetAllEffectsFlags\<close>

text \<open>
  \<^verbatim>\<open>void SetAllEffectsFlags(GenTreeFlags sourceFlags)
  {
      assert((sourceFlags & ~GTF_ALL_EFFECT) == 0);
      gtFlags &= ~GTF_ALL_EFFECT;
      gtFlags |= sourceFlags;
  }\<close>
  and its three overloads that take one, two or three source nodes.
\<close>

definition SetAllEffectsFlags :: "GenTreeFlags \<Rightarrow> 'a GenTree_scheme \<Rightarrow> 'a GenTree_scheme option" where
  "SetAllEffectsFlags sourceFlags this =
     (if (sourceFlags AND NOT GTF_ALL_EFFECT) = 0
      then Some (this\<lparr>gtFlags := (gtFlags this AND NOT GTF_ALL_EFFECT) OR sourceFlags\<rparr>)
      else None)"

definition SetAllEffectsFlags1 ::
  "'b GenTree_scheme \<Rightarrow> 'a GenTree_scheme \<Rightarrow> 'a GenTree_scheme option" where
  "SetAllEffectsFlags1 source this =
     SetAllEffectsFlags (gtFlags source AND GTF_ALL_EFFECT) this"

definition SetAllEffectsFlags2 ::
  "'b GenTree_scheme \<Rightarrow> 'c GenTree_scheme \<Rightarrow> 'a GenTree_scheme \<Rightarrow> 'a GenTree_scheme option" where
  "SetAllEffectsFlags2 firstSource secondSource this =
     SetAllEffectsFlags ((gtFlags firstSource OR gtFlags secondSource) AND GTF_ALL_EFFECT) this"

definition SetAllEffectsFlags3 ::
  "'b GenTree_scheme \<Rightarrow> 'c GenTree_scheme \<Rightarrow> 'd GenTree_scheme \<Rightarrow> 'a GenTree_scheme
     \<Rightarrow> 'a GenTree_scheme option" where
  "SetAllEffectsFlags3 firstSource secondSource thirdSouce this =
     SetAllEffectsFlags
       ((gtFlags firstSource OR gtFlags secondSource OR gtFlags thirdSouce) AND GTF_ALL_EFFECT) this"

subsection \<open>Constructors of unary and binary nodes\<close>

text \<open>
  What the constructors use from outside the header. \<open>GenTree_ctor oper type\<close> is the header
  that the base constructor \<^verbatim>\<open>GenTree::GenTree(genTreeOps oper, var_types type)\<close> leaves
  behind (declared \<^verbatim>\<open>inline\<close> in the header, defined in \<^verbatim>\<open>compiler.hpp\<close>); the predicates
  are the operator and type classifications that the constructors assert on
  (\<^verbatim>\<open>NullOp1Legal\<close> and \<^verbatim>\<open>NullOp2Legal\<close> are switches over operator codes of \<^verbatim>\<open>gtlist.h\<close>);
  the rest are the codes of the operators and types that the header names.
\<close>

record JitTables =
  GenTree_ctor :: "genTreeOps \<Rightarrow> var_types \<Rightarrow> GenTree"
  OperIsCompare :: "genTreeOps \<Rightarrow> bool"
  OperIsUnary :: "genTreeOps \<Rightarrow> bool"
  varTypeIsIntegral :: "var_types \<Rightarrow> bool"
  NullOp1Legal :: "genTreeOps \<Rightarrow> var_types \<Rightarrow> bool"
  NullOp2Legal :: "genTreeOps \<Rightarrow> bool"
  TYP_STRUCT :: var_types
  TYP_VOID :: var_types
  TYP_UNKNOWN :: var_types
  GT_BOUNDS_CHECK :: genTreeOps
  IsMultiRegNode :: "GenTree \<Rightarrow> bool"

text \<open>
  \<^verbatim>\<open>GenTreeUnOp(genTreeOps oper, var_types type, GenTree* op1)
      : GenTree(oper, type), gtOp1(op1)
  {
      assert(op1 != nullptr || NullOp1Legal());
      if (op1 != nullptr)
      { // Propagate effects flags from child.
          gtFlags |= op1->gtFlags & GTF_ALL_EFFECT;
      }
  }\<close>
\<close>

definition GenTreeUnOp_ctor ::
  "JitTables \<Rightarrow> genTreeOps \<Rightarrow> var_types \<Rightarrow> GenTree option \<Rightarrow> GenTreeUnOp option" where
  "GenTreeUnOp_ctor J oper type op1 =
     (let base = GenTree_ctor J oper type;
          this = GenTree.extend base (GenTreeUnOp.fields op1)
      in if op1 \<noteq> None \<or> NullOp1Legal J (gtOper this) (gtType this)
         then (case op1 of
                 None \<Rightarrow> Some this
               | Some c \<Rightarrow> Some (this\<lparr>gtFlags := gtFlags this OR (gtFlags c AND GTF_ALL_EFFECT)\<rparr>))
         else None)"

text \<open>
  \<^verbatim>\<open>GenTreeOp(genTreeOps oper, var_types type, GenTree* op1, GenTree* op2)
      : GenTreeUnOp(oper, type, op1), gtOp2(op2)
  {
      assert(!GenTree::OperIsCompare(oper) || varTypeIsIntegral(type));
      assert(op2 != nullptr || NullOp2Legal());
      assert(!OperIsUnary(oper) || op2 == nullptr);
      if (op2 != nullptr)
      {
          gtFlags |= op2->gtFlags & GTF_ALL_EFFECT;
      }
  }\<close>
\<close>

definition GenTreeOp_ctor ::
  "JitTables \<Rightarrow> genTreeOps \<Rightarrow> var_types \<Rightarrow> GenTree option \<Rightarrow> GenTree option
     \<Rightarrow> GenTreeOp option" where
  "GenTreeOp_ctor J oper type op1 op2 =
     (case GenTreeUnOp_ctor J oper type op1 of
        None \<Rightarrow> None
      | Some u \<Rightarrow>
          (let this = GenTreeUnOp.extend u (GenTreeOp.fields op2)
           in if (\<not> OperIsCompare J oper \<or> varTypeIsIntegral J type)
                 \<and> (op2 \<noteq> None \<or> NullOp2Legal J (gtOper this))
                 \<and> (\<not> OperIsUnary J oper \<or> op2 = None)
              then (case op2 of
                      None \<Rightarrow> Some this
                    | Some c \<Rightarrow>
                        Some (this\<lparr>gtFlags := gtFlags this OR (gtFlags c AND GTF_ALL_EFFECT)\<rparr>))
              else None))"

text \<open>
  A binary shape whose operator has an effect of its own: the bounds check may throw.

  \<^verbatim>\<open>struct GenTreeBoundsChk : public GenTreeOp
  {
      BasicBlock* gtIndRngFailBB; SpecialCodeKind gtThrowKind; var_types gtInxType;

      GenTreeBoundsChk(GenTree* index, GenTree* length, SpecialCodeKind kind)
          : GenTreeOp(GT_BOUNDS_CHECK, TYP_VOID, index, length)
          , gtIndRngFailBB(nullptr), gtThrowKind(kind), gtInxType(TYP_UNKNOWN)
      {
          gtFlags |= GTF_EXCEPT;
      }\<close>
\<close>

datatype SpecialCodeKind =
    SCK_NONE | SCK_RNGCHK_FAIL | SCK_DIV_BY_ZERO | SCK_ARITH_EXCPN | SCK_ARG_EXCPN
  | SCK_ARG_RNG_EXCPN | SCK_COUNT

definition SCK_OVERFLOW :: SpecialCodeKind where
  "SCK_OVERFLOW = SCK_ARITH_EXCPN"

record GenTreeBoundsChk = GenTreeOp +
  gtIndRngFailBB :: "nat option"
  gtThrowKind :: SpecialCodeKind
  gtInxType :: var_types

definition GenTreeBoundsChk_ctor ::
  "JitTables \<Rightarrow> GenTree option \<Rightarrow> GenTree option \<Rightarrow> SpecialCodeKind
     \<Rightarrow> GenTreeBoundsChk option" where
  "GenTreeBoundsChk_ctor J index length' kind =
     (case GenTreeOp_ctor J (GT_BOUNDS_CHECK J) (TYP_VOID J) index length' of
        None \<Rightarrow> None
      | Some b \<Rightarrow>
          (let this = GenTreeOp.extend b (GenTreeBoundsChk.fields None kind (TYP_UNKNOWN J))
           in Some (this\<lparr>gtFlags := gtFlags this OR GTF_EXCEPT\<rparr>)))"

text \<open>The composite side-effect flags of a node, and of an operand slot that may be null.\<close>

definition effects :: "'a GenTree_scheme \<Rightarrow> GenTreeFlags" where
  "effects n = gtFlags n AND GTF_ALL_EFFECT"

definition slot_effects :: "GenTree option \<Rightarrow> GenTreeFlags" where
  "slot_effects op = (case op of None \<Rightarrow> GTF_EMPTY | Some c \<Rightarrow> effects c)"

subsection \<open>Value numbers and changing the operator\<close>

text \<open>
  \<^verbatim>\<open>void SetVNs(ValueNumPair vnp) { gtVNPair = vnp; }
  void ClearVN() { gtVNPair = ValueNumPair(); } // Initializes both elements to "NoVN".
  ValueNum GetVN(ValueNumKind vnk) const\<close>
\<close>

definition SetVNs :: "ValueNumPair \<Rightarrow> 'a GenTree_scheme \<Rightarrow> 'a GenTree_scheme" where
  "SetVNs vnp this = this\<lparr>gtVNPair := vnp\<rparr>"

definition ClearVN :: "'a GenTree_scheme \<Rightarrow> 'a GenTree_scheme" where
  "ClearVN this = this\<lparr>gtVNPair := ValueNumPair_default\<rparr>"

definition GetVN :: "ValueNumKind \<Rightarrow> 'a GenTree_scheme \<Rightarrow> ValueNum" where
  "GetVN vnk this =
     (if vnk = VNK_Liberal then m_liberal (gtVNPair this) else m_conservative (gtVNPair this))"

datatype ValueNumberUpdate = CLEAR_VN | PRESERVE_VN

text \<open>
  Modelled from the spec: \<^verbatim>\<open>SetOperRaw\<close>, \<^verbatim>\<open>SetOper\<close> and \<^verbatim>\<open>ChangeOper\<close> are declared in the
  header (\<^verbatim>\<open>void SetOper(genTreeOps oper, ValueNumberUpdate vnUpdate = CLEAR_VN); // set gtOper\<close>,
  \<^verbatim>\<open>ChangeOper\<close>: "set gtOper and only keep GTF_COMMON_MASK flags") and defined in
  \<^verbatim>\<open>compiler.hpp\<close>. The spec: the operator of a node is changed in place, by a variant
  "that also clears the value number" or by "a variant that preserves the value number".
\<close>

definition SetOperRaw :: "genTreeOps \<Rightarrow> 'a GenTree_scheme \<Rightarrow> 'a GenTree_scheme" where
  "SetOperRaw oper this = this\<lparr>gtOper := oper\<rparr>"

definition SetOper :: "genTreeOps \<Rightarrow> ValueNumberUpdate \<Rightarrow> 'a GenTree_scheme \<Rightarrow> 'a GenTree_scheme" where
  "SetOper oper vnUpdate this =
     (let this = SetOperRaw oper this
      in if vnUpdate = CLEAR_VN then ClearVN this else this)"

definition ChangeOper :: "genTreeOps \<Rightarrow> ValueNumberUpdate \<Rightarrow> 'a GenTree_scheme \<Rightarrow> 'a GenTree_scheme" where
  "ChangeOper oper vnUpdate this =
     (let this = SetOper oper vnUpdate this
      in this\<lparr>gtFlags := gtFlags this AND GTF_COMMON_MASK\<rparr>)"

subsection \<open>Register assignment, and the registers of a copy/reload node\<close>

text \<open>
  The register constants of \<^verbatim>\<open>target.h\<close>. The header bounds \<^verbatim>\<open>MAX_RET_REG_COUNT\<close> by
  \<^verbatim>\<open>static_assert_no_msg(MAX_RET_REG_COUNT * 2 <= sizeof(unsigned char) * BITS_PER_BYTE)\<close>.
\<close>

record Target =
  REG_FIRST :: regNumber
  REG_COUNT :: regNumber
  REG_NA :: regNumber
  MAX_RET_REG_COUNT :: nat

text \<open>
  \<^verbatim>\<open>regNumber GetRegNum() const
  {
      assert((gtRegTag == GT_REGTAG_REG) || (gtRegTag == GT_REGTAG_NONE));
      regNumber reg = (regNumber)_gtRegNum;
      assert((gtRegTag == GT_REGTAG_NONE) || (reg >= REG_FIRST && reg <= REG_COUNT));
      return reg;
  }
  void SetRegNum(regNumber reg)
  {
      assert(reg >= REG_FIRST && reg <= REG_COUNT);
      _gtRegNum = (regNumberSmall)reg;
      INDEBUG(gtRegTag = GT_REGTAG_REG;)
      assert(_gtRegNum == reg);
  }\<close>
\<close>

definition GetRegNum :: "Target \<Rightarrow> 'a GenTree_scheme \<Rightarrow> regNumber option" where
  "GetRegNum T this =
     (let reg = unat (gtRegNum this)
      in if gtRegTag this = GT_REGTAG_NONE \<or> (REG_FIRST T \<le> reg \<and> reg \<le> REG_COUNT T)
         then Some reg else None)"

definition SetRegNum :: "Target \<Rightarrow> regNumber \<Rightarrow> 'a GenTree_scheme \<Rightarrow> 'a GenTree_scheme option" where
  "SetRegNum T reg this =
     (if REG_FIRST T \<le> reg \<and> reg \<le> REG_COUNT T
      then (let this = this\<lparr>gtRegNum := of_nat reg, gtRegTag := GT_REGTAG_REG\<rparr>
            in if unat (gtRegNum this) = reg then Some this else None)
      else None)"

text \<open>
  \<^verbatim>\<open>struct GenTreeCopyOrReload : public GenTreeUnOp
  {
      regNumberSmall gtOtherRegs[MAX_RET_REG_COUNT - 1];  // #if FEATURE_MULTIREG_RET\<close>

  The model is the build with \<^verbatim>\<open>FEATURE_MULTIREG_RET\<close>. The array is a list, which the
  constructor gives its \<^verbatim>\<open>MAX_RET_REG_COUNT - 1\<close> elements; an access outside the list is a
  failure, as is a count taken on a list of another length.
\<close>

record GenTreeCopyOrReload = GenTreeUnOp +
  gtOtherRegs :: "regNumberSmall list"

text \<open>
  \<^verbatim>\<open>for (unsigned i = 0; i < MAX_RET_REG_COUNT - 1; ++i) { gtOtherRegs[i] = REG_NA; }\<close>
\<close>

definition ClearOtherRegs ::
  "Target \<Rightarrow> 'a GenTreeCopyOrReload_scheme \<Rightarrow> 'a GenTreeCopyOrReload_scheme" where
  "ClearOtherRegs T this =
     this\<lparr>gtOtherRegs := replicate (MAX_RET_REG_COUNT T - 1) (of_nat (REG_NA T))\<rparr>"

text \<open>
  \<^verbatim>\<open>regNumber GetRegNumByIdx(unsigned idx) const
  {
      assert(idx < MAX_RET_REG_COUNT);
      if (idx == 0) { return GetRegNum(); }
      return (regNumber)gtOtherRegs[idx - 1];
  }\<close>
\<close>

definition GetRegNumByIdx ::
  "Target \<Rightarrow> nat \<Rightarrow> 'a GenTreeCopyOrReload_scheme \<Rightarrow> regNumber option" where
  "GetRegNumByIdx T idx this =
     (if idx < MAX_RET_REG_COUNT T
      then (if idx = 0 then GetRegNum T this
            else if idx - 1 < length (gtOtherRegs this)
                 then Some (unat (gtOtherRegs this ! (idx - 1))) else None)
      else None)"

text \<open>
  \<^verbatim>\<open>void SetRegNumByIdx(regNumber reg, unsigned idx)
  {
      assert(idx < MAX_RET_REG_COUNT);
      if (idx == 0) { SetRegNum(reg); }
      else
      {
          gtOtherRegs[idx - 1] = (regNumberSmall)reg;
          assert(gtOtherRegs[idx - 1] == reg);
      }
  }\<close>
\<close>

definition SetRegNumByIdx ::
  "Target \<Rightarrow> regNumber \<Rightarrow> nat \<Rightarrow> 'a GenTreeCopyOrReload_scheme
     \<Rightarrow> 'a GenTreeCopyOrReload_scheme option" where
  "SetRegNumByIdx T reg idx this =
     (if idx < MAX_RET_REG_COUNT T
      then (if idx = 0 then SetRegNum T reg this
            else if idx - 1 < length (gtOtherRegs this)
                    \<and> unat (of_nat reg :: regNumberSmall) = reg
                 then Some (this\<lparr>gtOtherRegs := (gtOtherRegs this)[idx - 1 := of_nat reg]\<rparr>)
                 else None)
      else None)"

text \<open>
  \<^verbatim>\<open>unsigned GetRegCount() const
  {
      // We need to return the highest index for which we have a valid register.
      // Note that the gtOtherRegs array is off by one (the 0th register is GetRegNum()).
      for (unsigned i = MAX_RET_REG_COUNT; i > 1; i--)
      {
          if (gtOtherRegs[i - 2] != REG_NA) { return i; }
      }
      // We should never have a COPY or RELOAD with no valid registers.
      assert(GetRegNum() != REG_NA);
      return 1;
  }\<close>
  The loop, counting \<open>i\<close> down; \<open>None\<close> when it ends without returning.
\<close>

primrec GetRegCount_loop :: "Target \<Rightarrow> regNumberSmall list \<Rightarrow> nat \<Rightarrow> nat option" where
  "GetRegCount_loop T regs 0 = None"
| "GetRegCount_loop T regs (Suc k) =
     (if Suc k > 1
      then (if unat (regs ! (Suc k - 2)) \<noteq> REG_NA T then Some (Suc k)
            else GetRegCount_loop T regs k)
      else None)"

definition GetRegCount :: "Target \<Rightarrow> 'a GenTreeCopyOrReload_scheme \<Rightarrow> nat option" where
  "GetRegCount T this =
     (if length (gtOtherRegs this) = MAX_RET_REG_COUNT T - 1
      then (case GetRegCount_loop T (gtOtherRegs this) (MAX_RET_REG_COUNT T) of
              Some i \<Rightarrow> Some i
            | None \<Rightarrow>
                (case GetRegNum T this of
                   None \<Rightarrow> None
                 | Some reg \<Rightarrow> if reg \<noteq> REG_NA T then Some 1 else None))
      else None)"

text \<open>
  \<^verbatim>\<open>GenTreeCopyOrReload(genTreeOps oper, var_types type, GenTree* op1)
      : GenTreeUnOp(oper, type, op1)
  {
      assert(type != TYP_STRUCT || op1->IsMultiRegNode());
      SetRegNum(REG_NA);
      ClearOtherRegs();
  }\<close>
  Until \<^verbatim>\<open>ClearOtherRegs\<close> runs the array is not initialised; the model starts it empty.
\<close>

definition GenTreeCopyOrReload_ctor ::
  "JitTables \<Rightarrow> Target \<Rightarrow> genTreeOps \<Rightarrow> var_types \<Rightarrow> GenTree option
     \<Rightarrow> GenTreeCopyOrReload option" where
  "GenTreeCopyOrReload_ctor J T oper type op1 =
     (case GenTreeUnOp_ctor J oper type op1 of
        None \<Rightarrow> None
      | Some u \<Rightarrow>
          (let this = GenTreeUnOp.extend u (GenTreeCopyOrReload.fields [])
           in if type \<noteq> TYP_STRUCT J \<or> (case op1 of None \<Rightarrow> False | Some c \<Rightarrow> IsMultiRegNode J c)
              then (case SetRegNum T (REG_NA T) this of
                      None \<Rightarrow> None
                    | Some this \<Rightarrow> Some (ClearOtherRegs T this))
              else None))"

subsection \<open>Call nodes and their argument lists\<close>

text \<open>
  \<^verbatim>\<open>class CallArg { GenTree* m_earlyNode; GenTree* m_lateNode; CallArg* m_next; CallArg* m_lateNext; ... }\<close>
  \<^verbatim>\<open>class CallArgs { CallArg* m_head; CallArg* m_lateHead; ... }\<close>

  A \<^verbatim>\<open>CallArg\<close> object is identified by its address \<open>arg_addr\<close>. The two singly linked
  chains of a \<^verbatim>\<open>CallArgs\<close> are lists: \<open>m_head\<close> is the chain that starts at \<^verbatim>\<open>m_head\<close> and
  follows \<^verbatim>\<open>m_next\<close> (what \<^verbatim>\<open>Args()\<close> iterates), \<open>m_lateHead\<close> the chain that starts at
  \<^verbatim>\<open>m_lateHead\<close> and follows \<^verbatim>\<open>m_lateNext\<close> (what \<^verbatim>\<open>LateArgs()\<close> iterates).
\<close>

record CallArg =
  arg_addr :: nat
  m_earlyNode :: "GenTree option"
  m_lateNode :: "GenTree option"

record CallArgs =
  m_head :: "CallArg list"
  m_lateHead :: "CallArg list"

datatype gtCallTypes = CT_USER_FUNC | CT_HELPER | CT_INDIRECT | CT_COUNT

text \<open>
  \<^verbatim>\<open>union { GenTree* gtCallCookie; /* only used for CALLI unmanaged calls (CT_INDIRECT) */ ... };
  GenTree* gtControlExpr; // expression evaluated after args are placed which determines the control target
  union { CORINFO_METHOD_HANDLE gtCallMethHnd; /* CT_USER_FUNC or CT_HELPER */
          GenTree* gtCallAddr; /* CT_INDIRECT */ };\<close>
\<close>

record GenTreeCall = GenTree +
  gtArgs :: CallArgs
  gtCallType :: gtCallTypes
  gtCallCookie :: "GenTree option"
  gtControlExpr :: "GenTree option"
  gtCallAddr :: "GenTree option"

subsection \<open>The use-edge iterator\<close>

text \<open>
  The shapes of node that the iterator is modelled for, and the operand slots (the
  \<^verbatim>\<open>GenTree**\<close> values) that it can produce: the two slots of a unary/binary node, the early
  and the late slot of the \<^verbatim>\<open>CallArg\<close> at a given address, and the three slots of a call.
\<close>

datatype node = LeafNode GenTree | OpNode GenTreeOp | CallNode GenTreeCall

datatype use_edge =
    gtOp1_slot | gtOp2_slot
  | EarlyNodeRef nat | LateNodeRef nat
  | gtControlExpr_slot | gtCallCookie_slot | gtCallAddr_slot

text \<open>
  \<^verbatim>\<open>enum { CALL_ARGS = 0, CALL_LATE_ARGS = 1, CALL_CONTROL_EXPR = 2, CALL_COOKIE = 3,
         CALL_ADDRESS = 4, CALL_TERMINAL = 5 };\<close>
\<close>

datatype CallState =
  CALL_ARGS | CALL_LATE_ARGS | CALL_CONTROL_EXPR | CALL_COOKIE | CALL_ADDRESS | CALL_TERMINAL

datatype AdvanceFn = AdvanceCall CallState | AdvanceBinOp bool | Terminate

text \<open>
  \<^verbatim>\<open>AdvanceFn m_advance; GenTree* m_node; GenTree** m_edge; void* m_statePtr; int m_state;\<close>
  The types of \<open>m_node\<close> and \<open>m_statePtr\<close> are parameters: \<^verbatim>\<open>operator==\<close> only compares them.
\<close>

record ('n, 'p) GenTreeUseEdgeIterator =
  m_advance :: "AdvanceFn option"
  m_node :: 'n
  m_edge :: "use_edge option"
  m_statePtr :: 'p
  m_state :: int

text \<open>
  \<^verbatim>\<open>inline bool operator==(const GenTreeUseEdgeIterator& other) const
  {
      if (m_state == -1 || other.m_state == -1)
      {
          return m_state == other.m_state;
      }
      return (m_node == other.m_node) && (m_edge == other.m_edge) &&
             (m_statePtr == other.m_statePtr) && (m_state == other.m_state);
  }\<close>
\<close>

definition iterator_eq ::
  "('n, 'p) GenTreeUseEdgeIterator \<Rightarrow> ('n, 'p) GenTreeUseEdgeIterator \<Rightarrow> bool" where
  "iterator_eq this other =
     (if m_state this = -1 \<or> m_state other = -1
      then m_state this = m_state other
      else m_node this = m_node other \<and> m_edge this = m_edge other
           \<and> m_statePtr this = m_statePtr other \<and> m_state this = m_state other)"

definition iterator_neq ::
  "('n, 'p) GenTreeUseEdgeIterator \<Rightarrow> ('n, 'p) GenTreeUseEdgeIterator \<Rightarrow> bool" where
  "iterator_neq this other = (\<not> iterator_eq this other)"

text \<open>
  Modelled from the spec: the constructors of the iterator, \<^verbatim>\<open>operator++\<close>, \<^verbatim>\<open>Terminate\<close>,
  \<^verbatim>\<open>SetEntryStateForBinOp\<close>, \<^verbatim>\<open>AdvanceBinOp<ReverseOperands>\<close> and \<^verbatim>\<open>AdvanceCall<state>\<close>
  are declared in the header and defined in \<^verbatim>\<open>gentree.cpp\<close>. The model follows the
  declarations of the header (the fields, the advance functions, the state enumeration,
  the exhausted state \<open>m_state = -1\<close> that \<^verbatim>\<open>operator*\<close> asserts against) and the spec's
  contract: the iterator produces, in execution order, each operand slot that is live
  (non-null); a binary node yields its two operands in order unless \<^verbatim>\<open>GTF_REVERSE_OPS\<close>
  is set, in which case they are swapped; a call goes through the phases of the state
  enumeration in their order, each phase yielding the slots it is named after; an iterator
  past its last slot is exhausted. In the model the pointer \<open>m_node\<close> is the node itself
  (\<open>None\<close> for \<^verbatim>\<open>nullptr\<close>) and \<open>m_statePtr\<close> is the rest of the argument chain it points into.
\<close>

type_synonym use_edge_iterator = "(node option, CallArg list) GenTreeUseEdgeIterator"

definition Terminate_iterator :: "use_edge_iterator \<Rightarrow> use_edge_iterator" where
  "Terminate_iterator this = this\<lparr>m_state := -1\<rparr>"

definition AdvanceBinOp_iterator :: "bool \<Rightarrow> use_edge_iterator \<Rightarrow> use_edge_iterator" where
  "AdvanceBinOp_iterator ReverseOperands this =
     this\<lparr>m_edge := Some (if \<not> ReverseOperands then gtOp2_slot else gtOp1_slot),
          m_advance := Some Terminate\<rparr>"

definition SetEntryStateForBinOp :: "GenTreeOp \<Rightarrow> use_edge_iterator \<Rightarrow> use_edge_iterator" where
  "SetEntryStateForBinOp n this =
     (if gtOp2 n = None
      then (if gtOp1 n = None then Terminate_iterator this
            else this\<lparr>m_edge := Some gtOp1_slot, m_advance := Some Terminate\<rparr>)
      else if gtOp1 n = None
      then this\<lparr>m_edge := Some gtOp2_slot, m_advance := Some Terminate\<rparr>
      else if (gtFlags n AND GTF_REVERSE_OPS) \<noteq> 0
      then this\<lparr>m_edge := Some gtOp2_slot, m_state := 1, m_advance := Some (AdvanceBinOp True)\<rparr>
      else this\<lparr>m_edge := Some gtOp1_slot, m_state := 0, m_advance := Some (AdvanceBinOp False)\<rparr>)"

text \<open>The phases of a call, last phase first; a phase with no live slot falls through to the next.\<close>

definition AdvanceCall_ADDRESS :: "GenTreeCall \<Rightarrow> use_edge_iterator \<Rightarrow> use_edge_iterator" where
  "AdvanceCall_ADDRESS call this =
     (if gtCallType call = CT_INDIRECT \<and> gtCallAddr call \<noteq> None
      then this\<lparr>m_edge := Some gtCallAddr_slot, m_advance := Some (AdvanceCall CALL_TERMINAL)\<rparr>
      else Terminate_iterator this)"

definition AdvanceCall_COOKIE :: "GenTreeCall \<Rightarrow> use_edge_iterator \<Rightarrow> use_edge_iterator" where
  "AdvanceCall_COOKIE call this =
     (if gtCallType call = CT_INDIRECT \<and> gtCallCookie call \<noteq> None
      then this\<lparr>m_edge := Some gtCallCookie_slot, m_advance := Some (AdvanceCall CALL_ADDRESS)\<rparr>
      else AdvanceCall_ADDRESS call this)"

definition AdvanceCall_CONTROL_EXPR :: "GenTreeCall \<Rightarrow> use_edge_iterator \<Rightarrow> use_edge_iterator" where
  "AdvanceCall_CONTROL_EXPR call this =
     (if gtControlExpr call \<noteq> None
      then this\<lparr>m_edge := Some gtControlExpr_slot, m_advance := Some (AdvanceCall CALL_COOKIE)\<rparr>
      else AdvanceCall_COOKIE call this)"

fun AdvanceCall_LATE_ARGS ::
  "GenTreeCall \<Rightarrow> CallArg list \<Rightarrow> use_edge_iterator \<Rightarrow> use_edge_iterator" where
  "AdvanceCall_LATE_ARGS call [] this =
     AdvanceCall_CONTROL_EXPR call
       (this\<lparr>m_statePtr := [], m_advance := Some (AdvanceCall CALL_CONTROL_EXPR)\<rparr>)"
| "AdvanceCall_LATE_ARGS call (arg # rest) this =
     (if m_lateNode arg \<noteq> None
      then this\<lparr>m_edge := Some (LateNodeRef (arg_addr arg)), m_statePtr := rest,
                m_advance := Some (AdvanceCall CALL_LATE_ARGS)\<rparr>
      else AdvanceCall_LATE_ARGS call rest this)"

fun AdvanceCall_ARGS ::
  "GenTreeCall \<Rightarrow> CallArg list \<Rightarrow> use_edge_iterator \<Rightarrow> use_edge_iterator" where
  "AdvanceCall_ARGS call [] this =
     AdvanceCall_LATE_ARGS call (m_lateHead (gtArgs call))
       (this\<lparr>m_advance := Some (AdvanceCall CALL_LATE_ARGS)\<rparr>)"
| "AdvanceCall_ARGS call (arg # rest) this =
     (if m_earlyNode arg \<noteq> None
      then this\<lparr>m_edge := Some (EarlyNodeRef (arg_addr arg)), m_statePtr := rest,
                m_advance := Some (AdvanceCall CALL_ARGS)\<rparr>
      else AdvanceCall_ARGS call rest this)"

definition AdvanceCall_iterator :: "CallState \<Rightarrow> use_edge_iterator \<Rightarrow> use_edge_iterator" where
  "AdvanceCall_iterator state this =
     (case m_node this of
        Some (CallNode call) \<Rightarrow>
          (case state of
             CALL_ARGS \<Rightarrow> AdvanceCall_ARGS call (m_statePtr this) this
           | CALL_LATE_ARGS \<Rightarrow> AdvanceCall_LATE_ARGS call (m_statePtr this) this
           | CALL_CONTROL_EXPR \<Rightarrow> AdvanceCall_CONTROL_EXPR call this
           | CALL_COOKIE \<Rightarrow> AdvanceCall_COOKIE call this
           | CALL_ADDRESS \<Rightarrow> AdvanceCall_ADDRESS call this
           | CALL_TERMINAL \<Rightarrow> Terminate_iterator this)
      | _ \<Rightarrow> Terminate_iterator this)"

text \<open>\<^verbatim>\<open>operator++\<close>: an exhausted iterator stays as it is, any other calls \<open>m_advance\<close>.\<close>

definition iterator_inc :: "use_edge_iterator \<Rightarrow> use_edge_iterator" where
  "iterator_inc this =
     (if m_state this = -1 then this
      else (case m_advance this of
              Some (AdvanceCall state) \<Rightarrow> AdvanceCall_iterator state this
            | Some (AdvanceBinOp ReverseOperands) \<Rightarrow> AdvanceBinOp_iterator ReverseOperands this
            | Some Terminate \<Rightarrow> Terminate_iterator this
            | None \<Rightarrow> Terminate_iterator this))"

text \<open>\<^verbatim>\<open>GenTree::UseEdgesBegin()\<close> and \<^verbatim>\<open>GenTree::UseEdgesEnd()\<close>.\<close>

definition UseEdgesEnd :: use_edge_iterator where
  "UseEdgesEnd =
     \<lparr>m_advance = None, m_node = None, m_edge = None, m_statePtr = [], m_state = -1\<rparr>"

definition UseEdgesBegin :: "node \<Rightarrow> use_edge_iterator" where
  "UseEdgesBegin n =
     (let this = \<lparr>m_advance = None, m_node = Some n, m_edge = None, m_statePtr = [],
                  m_state = 0\<rparr>
      in case n of
           LeafNode l \<Rightarrow> Terminate_iterator this
         | OpNode b \<Rightarrow> SetEntryStateForBinOp b this
         | CallNode call \<Rightarrow>
             AdvanceCall_iterator CALL_ARGS
               (this\<lparr>m_statePtr := m_head (gtArgs call),
                     m_advance := Some (AdvanceCall CALL_ARGS)\<rparr>))"

text \<open>
  How far an iterator is from being exhausted: the phase of its advance function, then
  the length of the argument chain that is left.
\<close>

fun phase_rank :: "AdvanceFn option \<Rightarrow> nat" where
  "phase_rank (Some (AdvanceCall CALL_ARGS)) = 7"
| "phase_rank (Some (AdvanceCall CALL_LATE_ARGS)) = 6"
| "phase_rank (Some (AdvanceCall CALL_CONTROL_EXPR)) = 5"
| "phase_rank (Some (AdvanceCall CALL_COOKIE)) = 4"
| "phase_rank (Some (AdvanceCall CALL_ADDRESS)) = 3"
| "phase_rank (Some (AdvanceCall CALL_TERMINAL)) = 2"
| "phase_rank (Some (AdvanceBinOp r)) = 2"
| "phase_rank (Some Terminate) = 1"
| "phase_rank None = 1"

definition iterator_rank :: "use_edge_iterator \<Rightarrow> nat" where
  "iterator_rank this = (if m_state this = -1 then 0 else phase_rank (m_advance this))"

text \<open>
  The loop \<^verbatim>\<open>for (it = n->UseEdgesBegin(); it != n->UseEdgesEnd(); ++it) yield *it\<close>: the
  slots that the iterator produces for a node, in the order in which it produces them.
\<close>

function use_edges_from :: "use_edge_iterator \<Rightarrow> use_edge option list" where
  "use_edges_from it =
     (if iterator_neq it UseEdgesEnd then m_edge it # use_edges_from (iterator_inc it) else [])"
  by pat_completeness auto
termination
proof (relation "measures [iterator_rank, \<lambda>it. length (m_statePtr it)]")
  show "wf (measures [iterator_rank, \<lambda>it. length (m_statePtr it)])" by simp
next
  fix it :: use_edge_iterator
  assume "iterator_neq it UseEdgesEnd"
  then have live: "m_state it \<noteq> -1"
    by (auto simp add: iterator_neq_def iterator_eq_def UseEdgesEnd_def)
  have addr: "iterator_rank (AdvanceCall_ADDRESS c i) \<le> 2" for c i
    by (simp add: AdvanceCall_ADDRESS_def iterator_rank_def Terminate_iterator_def)
  have cookie: "iterator_rank (AdvanceCall_COOKIE c i) \<le> 3" for c i
  proof (cases "gtCallType c = CT_INDIRECT \<and> gtCallCookie c \<noteq> None")
    case True
    then show ?thesis by (simp add: AdvanceCall_COOKIE_def iterator_rank_def)
  next
    case False
    with addr [of c i] show ?thesis by (auto simp add: AdvanceCall_COOKIE_def)
  qed
  have control: "iterator_rank (AdvanceCall_CONTROL_EXPR c i) \<le> 4" for c i
  proof (cases "gtControlExpr c \<noteq> None")
    case True
    then show ?thesis by (simp add: AdvanceCall_CONTROL_EXPR_def iterator_rank_def)
  next
    case False
    with cookie [of c i] show ?thesis by (auto simp add: AdvanceCall_CONTROL_EXPR_def)
  qed
  have late: "iterator_rank (AdvanceCall_LATE_ARGS c xs i) \<le> 5
      \<or> (iterator_rank (AdvanceCall_LATE_ARGS c xs i) \<le> 6
          \<and> length (m_statePtr (AdvanceCall_LATE_ARGS c xs i)) < length xs)" for c xs i
  proof (induction xs)
    case Nil
    show ?case
      using control [of c "i\<lparr>m_statePtr := [], m_advance := Some (AdvanceCall CALL_CONTROL_EXPR)\<rparr>"]
      by simp
  next
    case (Cons a xs)
    show ?case
    proof (cases "m_lateNode a \<noteq> None")
      case True
      then show ?thesis by (simp add: iterator_rank_def)
    next
      case False
      with Cons show ?thesis by auto
    qed
  qed
  have args: "iterator_rank (AdvanceCall_ARGS c xs i) \<le> 6
      \<or> (iterator_rank (AdvanceCall_ARGS c xs i) \<le> 7
          \<and> length (m_statePtr (AdvanceCall_ARGS c xs i)) < length xs)" for c xs i
  proof (induction xs)
    case Nil
    show ?case
      using late [of c "m_lateHead (gtArgs c)" "i\<lparr>m_advance := Some (AdvanceCall CALL_LATE_ARGS)\<rparr>"]
      by auto
  next
    case (Cons a xs)
    show ?case
    proof (cases "m_earlyNode a \<noteq> None")
      case True
      then show ?thesis by (simp add: iterator_rank_def)
    next
      case False
      with Cons show ?thesis by auto
    qed
  qed
  have rank: "iterator_rank it = phase_rank (m_advance it)"
    using live by (simp add: iterator_rank_def)
  have term0: "iterator_rank (Terminate_iterator it) = 0"
    by (simp add: Terminate_iterator_def iterator_rank_def)
  have pos: "0 < phase_rank f" for f
    by (cases f rule: phase_rank.cases) simp_all
  have "iterator_rank (iterator_inc it) < iterator_rank it
      \<or> (iterator_rank (iterator_inc it) = iterator_rank it
          \<and> length (m_statePtr (iterator_inc it)) < length (m_statePtr it))"
  proof (cases "m_advance it")
    case None
    with live rank term0 show ?thesis by (simp add: iterator_inc_def)
  next
    case (Some f)
    show ?thesis
    proof (cases f)
      case Terminate
      with Some live rank term0 show ?thesis by (simp add: iterator_inc_def)
    next
      case (AdvanceBinOp r)
      with Some live show ?thesis
        by (simp add: iterator_inc_def AdvanceBinOp_iterator_def iterator_rank_def)
    next
      case (AdvanceCall st)
      with Some live have inc: "iterator_inc it = AdvanceCall_iterator st it"
        by (simp add: iterator_inc_def)
      show ?thesis
      proof (cases "\<exists>c. m_node it = Some (CallNode c)")
        case False
        then have "AdvanceCall_iterator st it = Terminate_iterator it"
          by (auto simp add: AdvanceCall_iterator_def split: option.splits node.splits)
        with inc term0 rank pos [of "m_advance it"] show ?thesis by simp
      next
        case True
        then obtain c where c: "m_node it = Some (CallNode c)" by blast
        show ?thesis
        proof (cases st)
          case CALL_ARGS
          with c inc have "iterator_inc it = AdvanceCall_ARGS c (m_statePtr it) it"
            by (simp add: AdvanceCall_iterator_def)
          with args [of c "m_statePtr it" it] rank Some AdvanceCall CALL_ARGS
          show ?thesis by auto
        next
          case CALL_LATE_ARGS
          with c inc have "iterator_inc it = AdvanceCall_LATE_ARGS c (m_statePtr it) it"
            by (simp add: AdvanceCall_iterator_def)
          with late [of c "m_statePtr it" it] rank Some AdvanceCall CALL_LATE_ARGS
          show ?thesis by auto
        next
          case CALL_CONTROL_EXPR
          with c inc have "iterator_inc it = AdvanceCall_CONTROL_EXPR c it"
            by (simp add: AdvanceCall_iterator_def)
          with control [of c it] rank Some AdvanceCall CALL_CONTROL_EXPR
          show ?thesis by auto
        next
          case CALL_COOKIE
          with c inc have "iterator_inc it = AdvanceCall_COOKIE c it"
            by (simp add: AdvanceCall_iterator_def)
          with cookie [of c it] rank Some AdvanceCall CALL_COOKIE
          show ?thesis by auto
        next
          case CALL_ADDRESS
          with c inc have "iterator_inc it = AdvanceCall_ADDRESS c it"
            by (simp add: AdvanceCall_iterator_def)
          with addr [of c it] rank Some AdvanceCall CALL_ADDRESS
          show ?thesis by auto
        next
          case CALL_TERMINAL
          with c inc have "iterator_inc it = Terminate_iterator it"
            by (simp add: AdvanceCall_iterator_def)
          with term0 rank Some AdvanceCall CALL_TERMINAL
          show ?thesis by auto
        qed
      qed
    qed
  qed
  then show "(iterator_inc it, it) \<in> measures [iterator_rank, \<lambda>it. length (m_statePtr it)]"
    by auto
qed

definition use_edges :: "node \<Rightarrow> use_edge option list" where
  "use_edges n = use_edges_from (UseEdgesBegin n)"

subsection \<open>Field sequences and the store that canonicalizes them\<close>

text \<open>
  \<^verbatim>\<open>enum class FieldKind : uintptr_t { Instance = 0, SimpleStatic = 1, SharedStatic = 2 };
  static const uintptr_t FIELD_KIND_MASK = 0b11;
  uintptr_t m_fieldHandleAndKind; FieldSeqNode* m_next;\<close>

  A pointer to a field sequence is \<^verbatim>\<open>nullptr\<close> (the empty sequence), the address of the
  static \<^verbatim>\<open>s_notAField\<close>, or the address of a node that the store allocated.
\<close>

type_synonym uintptr_t = "64 word"
type_synonym CORINFO_FIELD_HANDLE = uintptr_t
type_synonym FieldKind = uintptr_t

definition Instance :: FieldKind where "Instance = 0"
definition SimpleStatic :: FieldKind where "SimpleStatic = 1"
definition SharedStatic :: FieldKind where "SharedStatic = 2"

definition FIELD_KIND_MASK :: uintptr_t where "FIELD_KIND_MASK = 3"

definition NO_FIELD_HANDLE :: CORINFO_FIELD_HANDLE where "NO_FIELD_HANDLE = 0"

datatype FieldSeqPtr = SeqNull | SeqNotAField | SeqAddr nat

record FieldSeqNode =
  m_fieldHandleAndKind :: uintptr_t
  m_next :: FieldSeqPtr

definition GetKind :: "FieldSeqNode \<Rightarrow> FieldKind" where
  "GetKind this = m_fieldHandleAndKind this AND FIELD_KIND_MASK"

definition GetFieldHandleValue :: "FieldSeqNode \<Rightarrow> CORINFO_FIELD_HANDLE" where
  "GetFieldHandleValue this = m_fieldHandleAndKind this AND NOT FIELD_KIND_MASK"

text \<open>
  \<^verbatim>\<open>static bool Equals(const FieldSeqNode& fsn1, const FieldSeqNode& fsn2)
  {
      return fsn1.m_fieldHandleAndKind == fsn2.m_fieldHandleAndKind && fsn1.m_next == fsn2.m_next;
  }\<close>
\<close>

definition Equals :: "FieldSeqNode \<Rightarrow> FieldSeqNode \<Rightarrow> bool" where
  "Equals fsn1 fsn2 \<longleftrightarrow>
     m_fieldHandleAndKind fsn1 = m_fieldHandleAndKind fsn2 \<and> m_next fsn1 = m_next fsn2"

text \<open>
  Modelled from the spec: the constructor \<^verbatim>\<open>FieldSeqNode(fieldHnd, next, fieldKind)\<close> and the
  store's \<^verbatim>\<open>CreateSingleton\<close> and \<^verbatim>\<open>Append\<close> are declared in the header and defined in
  \<^verbatim>\<open>gentree.cpp\<close>. The spec: the store is "backed by a hash table keyed by
  (field-identifier, kind, tail-pointer) with a custom equality/hash function";
  \<^verbatim>\<open>CreateSingleton(fieldId, kind)\<close> gives the "canonical one-element sequence";
  \<^verbatim>\<open>Append(a, b)\<close> gives the "canonical concatenation, short-circuiting to the
  'not a field sequence' sentinel if either input is that sentinel"; constructing a field
  sequence "with a null field identifier" fails. The header's comments: the store's
  results are "canonical in the store", and the arguments of \<^verbatim>\<open>Append\<close> are results of
  \<^verbatim>\<open>CreateSingleton\<close>, \<^verbatim>\<open>NotAField\<close> or \<^verbatim>\<open>Append\<close>.

  In the model the constructor packs handle and kind into one word, as the accessors
  \<^verbatim>\<open>GetKind\<close> and \<^verbatim>\<open>GetFieldHandleValue\<close> unpack them. The store is its arena \<open>m_nodes\<close> (the
  node at address \<open>SeqAddr i\<close> is \<open>m_nodes ! i\<close>) and the entries of its hash table
  \<open>m_canonMap\<close>, which maps a node, compared with \<^verbatim>\<open>Equals\<close>, to its canonical address.
  \<^verbatim>\<open>Append\<close> walks the chain of its first argument; the walk is bounded by the number of
  allocated nodes, and \<open>None\<close> is a failed construction (a null field handle, a dangling
  pointer, or a chain longer than the arena).
\<close>

definition FieldSeqNode_ctor ::
  "CORINFO_FIELD_HANDLE \<Rightarrow> FieldSeqPtr \<Rightarrow> FieldKind \<Rightarrow> FieldSeqNode" where
  "FieldSeqNode_ctor fieldHnd next fieldKind =
     \<lparr>m_fieldHandleAndKind = fieldHnd OR fieldKind, m_next = next\<rparr>"

record FieldSeqStore =
  m_nodes :: "FieldSeqNode list"
  m_canonMap :: "(FieldSeqNode \<times> nat) list"

definition FieldSeqStore_ctor :: FieldSeqStore where
  "FieldSeqStore_ctor = \<lparr>m_nodes = [], m_canonMap = []\<rparr>"

definition NotAField :: FieldSeqPtr where
  "NotAField = SeqNotAField"

fun Lookup :: "(FieldSeqNode \<times> nat) list \<Rightarrow> FieldSeqNode \<Rightarrow> nat option" where
  "Lookup [] key = None"
| "Lookup ((k, v) # entries) key = (if Equals k key then Some v else Lookup entries key)"

text \<open>Look the node up; when it is new, allocate it and enter it in the table.\<close>

definition canonical_node :: "FieldSeqStore \<Rightarrow> FieldSeqNode \<Rightarrow> FieldSeqPtr \<times> FieldSeqStore" where
  "canonical_node store fsn =
     (case Lookup (m_canonMap store) fsn of
        Some res \<Rightarrow> (SeqAddr res, store)
      | None \<Rightarrow>
          (let res = length (m_nodes store)
           in (SeqAddr res,
               store\<lparr>m_nodes := m_nodes store @ [fsn],
                     m_canonMap := (fsn, res) # m_canonMap store\<rparr>)))"

definition CreateSingleton ::
  "FieldSeqStore \<Rightarrow> CORINFO_FIELD_HANDLE \<Rightarrow> FieldKind \<Rightarrow> (FieldSeqPtr \<times> FieldSeqStore) option" where
  "CreateSingleton store fieldHnd fieldKind =
     (if fieldHnd = NO_FIELD_HANDLE then None
      else Some (canonical_node store (FieldSeqNode_ctor fieldHnd SeqNull fieldKind)))"

fun Append_walk ::
  "nat \<Rightarrow> FieldSeqStore \<Rightarrow> FieldSeqPtr \<Rightarrow> FieldSeqPtr \<Rightarrow> (FieldSeqPtr \<times> FieldSeqStore) option" where
  "Append_walk fuel store a b =
     (if a = NotAField \<or> b = NotAField then Some (NotAField, store)
      else if a = SeqNull then Some (b, store)
      else if b = SeqNull then Some (a, store)
      else (case a of
              SeqAddr i \<Rightarrow>
                (if i < length (m_nodes store)
                 then (case fuel of
                         0 \<Rightarrow> None
                       | Suc fuel' \<Rightarrow>
                           (let node = m_nodes store ! i
                            in case Append_walk fuel' store (m_next node) b of
                                 None \<Rightarrow> None
                               | Some (tmp, store') \<Rightarrow>
                                   Some (canonical_node store'
                                     (FieldSeqNode_ctor (GetFieldHandleValue node) tmp
                                        (GetKind node)))))
                 else None)
            | _ \<Rightarrow> None))"

definition Append ::
  "FieldSeqStore \<Rightarrow> FieldSeqPtr \<Rightarrow> FieldSeqPtr \<Rightarrow> (FieldSeqPtr \<times> FieldSeqStore) option" where
  "Append store a b = Append_walk (length (m_nodes store)) store a b"

text \<open>
  A construction of a field sequence with the store's two operations: any tree of calls,
  a \<^verbatim>\<open>CreateSingleton\<close> at each leaf and an \<^verbatim>\<open>Append\<close> of the two results at each inner
  node, the calls made one after the other on the same store. \<open>plan_fields\<close> is the chain
  of (field handle, field kind) pairs that the construction is for.
\<close>

datatype seq_plan =
    Singleton CORINFO_FIELD_HANDLE FieldKind
  | Concat seq_plan seq_plan

fun plan_fields :: "seq_plan \<Rightarrow> (CORINFO_FIELD_HANDLE \<times> FieldKind) list" where
  "plan_fields (Singleton fieldHnd fieldKind) = [(fieldHnd, fieldKind)]"
| "plan_fields (Concat p q) = plan_fields p @ plan_fields q"

fun run_plan :: "FieldSeqStore \<Rightarrow> seq_plan \<Rightarrow> (FieldSeqPtr \<times> FieldSeqStore) option" where
  "run_plan store (Singleton fieldHnd fieldKind) = CreateSingleton store fieldHnd fieldKind"
| "run_plan store (Concat p q) =
     (case run_plan store p of
        None \<Rightarrow> None
      | Some (a, store1) \<Rightarrow>
          (case run_plan store1 q of
             None \<Rightarrow> None
           | Some (b, store2) \<Rightarrow> Append store2 a b))"

text \<open>
  The invariant of the store: every entry of the table maps a node to the address that
  holds it, every allocated node is in the table under its own address, and the tail of
  an allocated node is null or an earlier node. A later state of a store is one whose
  arena extends the earlier arena.
\<close>

definition tail_ok :: "nat \<Rightarrow> FieldSeqPtr \<Rightarrow> bool" where
  "tail_ok i p = (case p of SeqNull \<Rightarrow> True | SeqNotAField \<Rightarrow> False | SeqAddr j \<Rightarrow> j < i)"

definition canonical_store :: "FieldSeqStore \<Rightarrow> bool" where
  "canonical_store store \<longleftrightarrow>
     list_all (\<lambda>(k, v). v < length (m_nodes store) \<and> m_nodes store ! v = k) (m_canonMap store)
     \<and> list_all (\<lambda>i. Lookup (m_canonMap store) (m_nodes store ! i) = Some i)
          [0..<length (m_nodes store)]
     \<and> list_all (\<lambda>i. tail_ok i (m_next (m_nodes store ! i))) [0..<length (m_nodes store)]"

definition later_store :: "FieldSeqStore \<Rightarrow> FieldSeqStore \<Rightarrow> bool" where
  "later_store store store' \<longleftrightarrow>
     take (length (m_nodes store)) (m_nodes store') = m_nodes store"

text \<open>The sequence of packed (handle, kind) words that a pointer stands for in an arena.\<close>

inductive denotes :: "FieldSeqNode list \<Rightarrow> FieldSeqPtr \<Rightarrow> uintptr_t list \<Rightarrow> bool" where
  denotes_null: "denotes nodes SeqNull []"
| denotes_node:
    "i < length nodes \<Longrightarrow> denotes nodes (m_next (nodes ! i)) ws
       \<Longrightarrow> denotes nodes (SeqAddr i) (m_fieldHandleAndKind (nodes ! i) # ws)"

text \<open>The packed words of a chain of (field handle, field kind) pairs.\<close>

definition packed :: "(CORINFO_FIELD_HANDLE \<times> FieldKind) list \<Rightarrow> uintptr_t list" where
  "packed chain = map (\<lambda>(h, k). h OR k) chain"

section \<open>Concrete inputs\<close>

text \<open>
  Tables under which every operator is binary and every type integral, with a base
  constructor that starts from an empty flag word, and a leaf node with given flags.
\<close>

definition example_tables :: JitTables where
  "example_tables =
     \<lparr>GenTree_ctor = (\<lambda>oper type.
          \<lparr>gtOper = oper, gtType = type, gtRegTag = GT_REGTAG_NONE, gtRegNum = 0,
           gtFlags = GTF_EMPTY, gtVNPair = ValueNumPair_default\<rparr>),
      OperIsCompare = (\<lambda>oper. False),
      OperIsUnary = (\<lambda>oper. False),
      varTypeIsIntegral = (\<lambda>type. True),
      NullOp1Legal = (\<lambda>oper type. False),
      NullOp2Legal = (\<lambda>oper. False),
      TYP_STRUCT = 0,
      TYP_VOID = 1,
      TYP_UNKNOWN = 2,
      GT_BOUNDS_CHECK = 8,
      IsMultiRegNode = (\<lambda>n. False)\<rparr>"

definition example_leaf :: "GenTreeFlags \<Rightarrow> GenTree" where
  "example_leaf f =
     \<lparr>gtOper = 1, gtType = 1, gtRegTag = GT_REGTAG_NONE, gtRegNum = 0,
      gtFlags = f, gtVNPair = ValueNumPair_default\<rparr>"

text \<open>
  A target with four return registers whose "no register" value is 64; a copy/reload node
  with given register fields; a binary node with given flags, whose first operand may
  assign and whose second may throw; and an indirect call with two arguments, the second
  of which is also in the late list, a control expression, a call cookie and a call
  address.
\<close>

definition example_target :: Target where
  "example_target = \<lparr>REG_FIRST = 0, REG_COUNT = 64, REG_NA = 64, MAX_RET_REG_COUNT = 4\<rparr>"

definition example_copy :: "genRegTag \<Rightarrow> regNumberSmall \<Rightarrow> regNumberSmall list \<Rightarrow> GenTreeCopyOrReload" where
  "example_copy tag reg others =
     \<lparr>gtOper = 5, gtType = 2, gtRegTag = tag, gtRegNum = reg, gtFlags = 0,
      gtVNPair = ValueNumPair_default, gtOp1 = Some (example_leaf 0), gtOtherRegs = others\<rparr>"

definition example_binop :: "GenTreeFlags \<Rightarrow> GenTreeOp" where
  "example_binop f =
     \<lparr>gtOper = 7, gtType = 3, gtRegTag = GT_REGTAG_NONE, gtRegNum = 0, gtFlags = f,
      gtVNPair = ValueNumPair_default,
      gtOp1 = Some (example_leaf 0x01), gtOp2 = Some (example_leaf 0x04)\<rparr>"

definition example_call :: GenTreeCall where
  "example_call =
     \<lparr>gtOper = 9, gtType = 3, gtRegTag = GT_REGTAG_NONE, gtRegNum = 0, gtFlags = 0x02,
      gtVNPair = ValueNumPair_default,
      gtArgs =
        \<lparr>m_head =
           [\<lparr>arg_addr = 100, m_earlyNode = Some (example_leaf 0), m_lateNode = None\<rparr>,
            \<lparr>arg_addr = 101, m_earlyNode = Some (example_leaf 0),
             m_lateNode = Some (example_leaf 0)\<rparr>],
         m_lateHead =
           [\<lparr>arg_addr = 101, m_earlyNode = Some (example_leaf 0),
             m_lateNode = Some (example_leaf 0)\<rparr>]\<rparr>,
      gtCallType = CT_INDIRECT,
      gtCallCookie = Some (example_leaf 0),
      gtControlExpr = Some (example_leaf 0),
      gtCallAddr = Some (example_leaf 0)\<rparr>"

text \<open>
  Two constructions of the same chain of three fields, grouped to the left and to the
  right; the store after the first has run in an empty store; and that store after one
  more field has been entered.
\<close>

definition example_plan_left :: seq_plan where
  "example_plan_left =
     Concat (Concat (Singleton 0x1000 Instance) (Singleton 0x2000 SimpleStatic))
       (Singleton 0x3000 Instance)"

definition example_plan_right :: seq_plan where
  "example_plan_right =
     Concat (Singleton 0x1000 Instance)
       (Concat (Singleton 0x2000 SimpleStatic) (Singleton 0x3000 Instance))"

definition example_nodes :: "FieldSeqNode list" where
  "example_nodes =
     [\<lparr>m_fieldHandleAndKind = 0x1000, m_next = SeqNull\<rparr>,
      \<lparr>m_fieldHandleAndKind = 0x2001, m_next = SeqNull\<rparr>,
      \<lparr>m_fieldHandleAndKind = 0x1000, m_next = SeqAddr 1\<rparr>,
      \<lparr>m_fieldHandleAndKind = 0x3000, m_next = SeqNull\<rparr>,
      \<lparr>m_fieldHandleAndKind = 0x2001, m_next = SeqAddr 3\<rparr>,
      \<lparr>m_fieldHandleAndKind = 0x1000, m_next = SeqAddr 4\<rparr>]"

definition example_store :: FieldSeqStore where
  "example_store =
     \<lparr>m_nodes = example_nodes,
      m_canonMap =
        [(\<lparr>m_fieldHandleAndKind = 0x1000, m_next = SeqAddr 4\<rparr>, 5),
         (\<lparr>m_fieldHandleAndKind = 0x2001, m_next = SeqAddr 3\<rparr>, 4),
         (\<lparr>m_fieldHandleAndKind = 0x3000, m_next = SeqNull\<rparr>, 3),
         (\<lparr>m_fieldHandleAndKind = 0x1000, m_next = SeqAddr 1\<rparr>, 2),
         (\<lparr>m_fieldHandleAndKind = 0x2001, m_next = SeqNull\<rparr>, 1),
         (\<lparr>m_fieldHandleAndKind = 0x1000, m_next = SeqNull\<rparr>, 0)]\<rparr>"

definition example_store_later :: FieldSeqStore where
  "example_store_later =
     \<lparr>m_nodes = example_nodes @ [\<lparr>m_fieldHandleAndKind = 0x4000, m_next = SeqNull\<rparr>],
      m_canonMap =
        (\<lparr>m_fieldHandleAndKind = 0x4000, m_next = SeqNull\<rparr>, 6) # m_canonMap example_store\<rparr>"

section \<open>Properties\<close>

subsection \<open>Flag arithmetic\<close>

lemma GTF_ALL_EFFECT_value: "GTF_ALL_EFFECT = 0x1F"
  by (simp add: GTF_ALL_EFFECT_def GTF_GLOB_EFFECT_def GTF_SIDE_EFFECT_def
      GTF_PERSISTENT_SIDE_EFFECTS_def GTF_ASG_def GTF_CALL_def GTF_EXCEPT_def GTF_GLOB_REF_def
      GTF_ORDER_SIDEEFF_def)

lemma effect_bits_as_powers:
  "GTF_ASG = 2 ^ 0" "GTF_CALL = 2 ^ 1" "GTF_EXCEPT = 2 ^ 2" "GTF_GLOB_REF = 2 ^ 3"
  by (simp_all add: GTF_ASG_def GTF_CALL_def GTF_EXCEPT_def GTF_GLOB_REF_def)

lemma and_or_nonzero_iff:
  "(f AND (a OR b) \<noteq> 0) \<longleftrightarrow> (f AND a \<noteq> 0 \<or> f AND b \<noteq> 0)" for f :: "'a::len word"
  by (simp add: bit.conj_disj_distrib or_eq_0_iff)

lemma and_or_full_iff:
  "(f AND (a OR b) = (a OR b)) \<longleftrightarrow> (f AND a = a \<and> f AND b = b)" for f :: "'a::len word"
  by (auto simp add: bit_eq_iff bit_and_iff bit_or_iff)

lemma and_single_bit_full_iff:
  "f AND 2 ^ n = 2 ^ n \<longleftrightarrow> f AND 2 ^ n \<noteq> 0" if "n < LENGTH('a)" for f :: "'a::len word"
proof (cases "bit f n")
  case True
  have "f AND 2 ^ n = 2 ^ n"
    by (rule bit_eqI) (use True in \<open>auto simp add: bit_and_iff bit_exp_iff\<close>)
  moreover have "f AND 2 ^ n \<noteq> 0"
    using True by (simp add: and_exp_eq_0_iff_not_bit)
  ultimately show ?thesis by simp
next
  case False
  then have z: "f AND 2 ^ n = 0" by (simp add: and_exp_eq_0_iff_not_bit)
  have "(2::'a word) ^ n \<noteq> 0" using that by simp
  with z show ?thesis by simp
qed

subsection \<open>The globally-visible-side-effects predicate\<close>

text \<open>
  C4. For every flag set \<open>f\<close>, \<^verbatim>\<open>GTF_GLOBALLY_VISIBLE_SIDE_EFFECTS(f)\<close> holds exactly when
  the may-call bit is set, or the may-throw bit is set, or the may-assign bit and the
  reads-global-state bit are both set. No other bit of \<open>f\<close> matters.
\<close>

theorem globally_visible_side_effects_iff:
  "GTF_GLOBALLY_VISIBLE_SIDE_EFFECTS f \<longleftrightarrow>
     (f AND GTF_CALL \<noteq> 0) \<or> (f AND GTF_EXCEPT \<noteq> 0)
     \<or> (f AND GTF_ASG \<noteq> 0 \<and> f AND GTF_GLOB_REF \<noteq> 0)"
  unfolding GTF_GLOBALLY_VISIBLE_SIDE_EFFECTS_def and_or_nonzero_iff and_or_full_iff
  unfolding effect_bits_as_powers
  by (simp only: and_single_bit_full_iff [where 'a = 32, simplified]) auto

text \<open>
  At \<open>0x19F1\<close> (may-assign and ordering bits, no call, no throw, no global read, and many
  unrelated bits) the predicate is false; at \<open>0x09\<close> (may-assign and reads-global-state)
  it is true.
\<close>

theorem globally_visible_side_effects_iff_witness:
  "\<not> GTF_GLOBALLY_VISIBLE_SIDE_EFFECTS 0x19F1 \<and> GTF_GLOBALLY_VISIBLE_SIDE_EFFECTS 0x09"
  using globally_visible_side_effects_iff [of "0x19F1"] globally_visible_side_effects_iff [of "0x09"]
  by (simp add: GTF_CALL_def GTF_EXCEPT_def GTF_ASG_def GTF_GLOB_REF_def)

subsection \<open>SetAllEffectsFlags replaces the effect bits\<close>

lemma frame_bits: "((f AND NOT m) OR (s AND m)) AND NOT m = f AND NOT m" for f :: "'a::len word"
  by (rule bit_eqI) (auto simp add: bit_and_iff bit_or_iff bit_not_iff)

lemma effect_bits: "((f AND NOT m) OR (s AND m)) AND m = s AND m" for f :: "'a::len word"
  by (rule bit_eqI) (auto simp add: bit_and_iff bit_or_iff bit_not_iff)

lemma stale_bits: "((f AND NOT m) OR (s AND m)) AND ((f AND m) AND NOT (s AND m)) = 0"
  for f :: "'a::len word"
  by (rule bit_eqI) (auto simp add: bit_and_iff bit_or_iff bit_not_iff)

lemma or_and_distrib3:
  "(a OR b OR c) AND m = (a AND m) OR (b AND m) OR (c AND m)" for a :: "'a::len word"
  by (rule bit_eqI) (auto simp add: bit_and_iff bit_or_iff)

text \<open>A masked argument passes the assertion of the flags overload.\<close>

lemma SetAllEffectsFlags_masked:
  "SetAllEffectsFlags (s AND GTF_ALL_EFFECT) n =
     Some (n\<lparr>gtFlags := (gtFlags n AND NOT GTF_ALL_EFFECT) OR (s AND GTF_ALL_EFFECT)\<rparr>)"
  by (simp add: SetAllEffectsFlags_def and.assoc)

lemma SetAllEffectsFlags_masked_props:
  "\<exists>n'. SetAllEffectsFlags (s AND GTF_ALL_EFFECT) n = Some n'
        \<and> gtFlags n' AND NOT GTF_ALL_EFFECT = gtFlags n AND NOT GTF_ALL_EFFECT
        \<and> effects n' = s AND GTF_ALL_EFFECT
        \<and> gtFlags n' AND (effects n AND NOT (s AND GTF_ALL_EFFECT)) = 0"
proof -
  define n' where "n' = n\<lparr>gtFlags := (gtFlags n AND NOT GTF_ALL_EFFECT) OR (s AND GTF_ALL_EFFECT)\<rparr>"
  have flags: "gtFlags n' = (gtFlags n AND NOT GTF_ALL_EFFECT) OR (s AND GTF_ALL_EFFECT)"
    by (simp add: n'_def)
  have "SetAllEffectsFlags (s AND GTF_ALL_EFFECT) n = Some n'"
    unfolding n'_def by (rule SetAllEffectsFlags_masked)
  moreover have "gtFlags n' AND NOT GTF_ALL_EFFECT = gtFlags n AND NOT GTF_ALL_EFFECT"
    unfolding flags by (rule frame_bits)
  moreover have "effects n' = s AND GTF_ALL_EFFECT"
    unfolding effects_def flags by (rule effect_bits)
  moreover have "gtFlags n' AND (effects n AND NOT (s AND GTF_ALL_EFFECT)) = 0"
    unfolding effects_def flags by (rule stale_bits)
  ultimately show ?thesis by blast
qed

text \<open>
  C10. \<^verbatim>\<open>SetAllEffectsFlags\<close> replaces rather than accumulates. For every node \<open>n\<close> and
  one, two or three source nodes, the call succeeds (its assertion holds), the bits of
  \<open>n\<close> outside \<^verbatim>\<open>GTF_ALL_EFFECT\<close> are what they were, the effect bits of the result are
  exactly the union of the sources' effect bits, and so every effect bit that \<open>n\<close> had and
  the union lacks is cleared.
\<close>

theorem SetAllEffectsFlags_replaces:
  "(\<exists>n'. SetAllEffectsFlags1 a n = Some n'
        \<and> gtFlags n' AND NOT GTF_ALL_EFFECT = gtFlags n AND NOT GTF_ALL_EFFECT
        \<and> effects n' = effects a
        \<and> gtFlags n' AND (effects n AND NOT (effects a)) = 0)
   \<and> (\<exists>n'. SetAllEffectsFlags2 a b n = Some n'
        \<and> gtFlags n' AND NOT GTF_ALL_EFFECT = gtFlags n AND NOT GTF_ALL_EFFECT
        \<and> effects n' = effects a OR effects b
        \<and> gtFlags n' AND (effects n AND NOT (effects a OR effects b)) = 0)
   \<and> (\<exists>n'. SetAllEffectsFlags3 a b c n = Some n'
        \<and> gtFlags n' AND NOT GTF_ALL_EFFECT = gtFlags n AND NOT GTF_ALL_EFFECT
        \<and> effects n' = effects a OR effects b OR effects c
        \<and> gtFlags n' AND (effects n AND NOT (effects a OR effects b OR effects c)) = 0)"
proof (intro conjI)
  show "\<exists>n'. SetAllEffectsFlags1 a n = Some n'
        \<and> gtFlags n' AND NOT GTF_ALL_EFFECT = gtFlags n AND NOT GTF_ALL_EFFECT
        \<and> effects n' = effects a
        \<and> gtFlags n' AND (effects n AND NOT (effects a)) = 0"
    using SetAllEffectsFlags_masked_props [of "gtFlags a" n]
    by (simp add: SetAllEffectsFlags1_def effects_def)
  show "\<exists>n'. SetAllEffectsFlags2 a b n = Some n'
        \<and> gtFlags n' AND NOT GTF_ALL_EFFECT = gtFlags n AND NOT GTF_ALL_EFFECT
        \<and> effects n' = effects a OR effects b
        \<and> gtFlags n' AND (effects n AND NOT (effects a OR effects b)) = 0"
    using SetAllEffectsFlags_masked_props [of "gtFlags a OR gtFlags b" n]
    by (simp add: SetAllEffectsFlags2_def effects_def bit.conj_disj_distrib2)
  show "\<exists>n'. SetAllEffectsFlags3 a b c n = Some n'
        \<and> gtFlags n' AND NOT GTF_ALL_EFFECT = gtFlags n AND NOT GTF_ALL_EFFECT
        \<and> effects n' = effects a OR effects b OR effects c
        \<and> gtFlags n' AND (effects n AND NOT (effects a OR effects b OR effects c)) = 0"
    using SetAllEffectsFlags_masked_props [of "gtFlags a OR gtFlags b OR gtFlags c" n]
    by (simp add: SetAllEffectsFlags3_def effects_def or_and_distrib3)
qed

subsection \<open>Effect flags after construction\<close>

lemma effects_or_masked:
  "(f OR (g AND GTF_ALL_EFFECT)) AND GTF_ALL_EFFECT = (f AND GTF_ALL_EFFECT) OR (g AND GTF_ALL_EFFECT)"
  for f :: GenTreeFlags
  by (rule bit_eqI) (auto simp add: bit_and_iff bit_or_iff)

lemma effects_or_masked_swap:
  "(f OR (g AND GTF_ALL_EFFECT)) AND GTF_ALL_EFFECT = (g AND GTF_ALL_EFFECT) OR (f AND GTF_ALL_EFFECT)"
  for f :: GenTreeFlags
  by (simp add: effects_or_masked or.commute)

lemma GenTreeUnOp_ctor_effects:
  assumes "GenTreeUnOp_ctor J oper type op1 = Some u"
  shows "effects u = slot_effects op1 OR effects (GenTree_ctor J oper type)"
    and "gtOp1 u = op1"
  using assms
  by (auto simp add: GenTreeUnOp_ctor_def Let_def effects_def slot_effects_def GTF_EMPTY_def
      GenTree.defs GenTreeUnOp.defs effects_or_masked_swap
      split: if_splits option.splits)

lemma GenTreeOp_ctor_effects_slots:
  assumes "GenTreeOp_ctor J oper type op1 op2 = Some n"
  shows "effects n = slot_effects op1 OR slot_effects op2 OR effects (GenTree_ctor J oper type)"
    and "gtOp1 n = op1" and "gtOp2 n = op2"
proof -
  from assms obtain u where u: "GenTreeUnOp_ctor J oper type op1 = Some u"
    by (auto simp add: GenTreeOp_ctor_def split: option.splits)
  note ue = GenTreeUnOp_ctor_effects [OF u]
  from assms u have n: "n = (case op2 of
        None \<Rightarrow> GenTreeUnOp.extend u (GenTreeOp.fields op2)
      | Some c \<Rightarrow> (GenTreeUnOp.extend u (GenTreeOp.fields op2))
                   \<lparr>gtFlags := gtFlags u OR (gtFlags c AND GTF_ALL_EFFECT)\<rparr>)"
    by (auto simp add: GenTreeOp_ctor_def Let_def GenTreeUnOp.defs GenTreeOp.defs
        split: option.splits if_splits)
  show "gtOp1 n = op1" using ue(2) n
    by (auto simp add: GenTreeUnOp.defs GenTreeOp.defs split: option.splits)
  show "gtOp2 n = op2" using n
    by (auto simp add: GenTreeUnOp.defs GenTreeOp.defs split: option.splits)
  show "effects n = slot_effects op1 OR slot_effects op2 OR effects (GenTree_ctor J oper type)"
  proof (cases op2)
    case None
    with n have "effects n = effects u"
      by (simp add: effects_def GenTreeUnOp.defs GenTreeOp.defs)
    with ue(1) None show ?thesis by (simp add: slot_effects_def GTF_EMPTY_def)
  next
    case (Some c)
    with n have "effects n = effects u OR effects c"
      by (simp add: effects_def GenTreeUnOp.defs GenTreeOp.defs effects_or_masked)
    with ue(1) Some show ?thesis by (simp add: slot_effects_def ac_simps)
  qed
qed

lemma GenTreeBoundsChk_ctor_effects:
  assumes "GenTreeBoundsChk_ctor J index length' kind = Some m"
  shows "effects m = slot_effects index OR slot_effects length'
           OR effects (GenTree_ctor J (GT_BOUNDS_CHECK J) (TYP_VOID J)) OR GTF_EXCEPT"
    and "gtOp1 m = index" and "gtOp2 m = length'"
proof -
  from assms obtain b
    where b: "GenTreeOp_ctor J (GT_BOUNDS_CHECK J) (TYP_VOID J) index length' = Some b"
      and m: "m = (GenTreeOp.extend b (GenTreeBoundsChk.fields None kind (TYP_UNKNOWN J)))
                    \<lparr>gtFlags := gtFlags b OR GTF_EXCEPT\<rparr>"
    by (auto simp add: GenTreeBoundsChk_ctor_def Let_def GenTreeOp.defs GenTreeBoundsChk.defs
        split: option.splits)
  note be = GenTreeOp_ctor_effects_slots [OF b]
  show "gtOp1 m = index" "gtOp2 m = length'"
    using be(2,3) m by (simp_all add: GenTreeOp.defs GenTreeBoundsChk.defs)
  have "GTF_EXCEPT AND GTF_ALL_EFFECT = GTF_EXCEPT"
    by (simp add: GTF_ALL_EFFECT_value GTF_EXCEPT_def)
  then have "effects m = effects b OR GTF_EXCEPT"
    using m by (simp add: effects_def GenTreeOp.defs GenTreeBoundsChk.defs
        bit.conj_disj_distrib2)
  with be(1) show "effects m = slot_effects index OR slot_effects length'
           OR effects (GenTree_ctor J (GT_BOUNDS_CHECK J) (TYP_VOID J)) OR GTF_EXCEPT"
    by (simp add: ac_simps)
qed

text \<open>
  C1. A binary node constructed with operands \<open>a\<close> and \<open>b\<close> holds them in its two operand
  slots, and its composite side-effect flags are, as soon as the constructor returns, the
  bitwise union of \<open>a\<close>'s, of \<open>b\<close>'s and of the effect bits of the operator itself. For a
  plain \<^verbatim>\<open>GenTreeOp\<close> the operator's bits are those that the base constructor
  \<^verbatim>\<open>GenTree(oper, type)\<close> has put in the header: the constructors of \<^verbatim>\<open>GenTreeUnOp\<close> and
  \<^verbatim>\<open>GenTreeOp\<close> add the operands' effects and nothing else. For a bounds check they are
  those and \<^verbatim>\<open>GTF_EXCEPT\<close>, which its own constructor adds. No later pass is involved.
\<close>

theorem GenTreeOp_ctor_effects:
  "(GenTreeOp_ctor J oper type (Some a) (Some b) = Some n
      \<longrightarrow> gtOp1 n = Some a \<and> gtOp2 n = Some b
          \<and> effects n = effects a OR effects b OR effects (GenTree_ctor J oper type))
   \<and> (GenTreeBoundsChk_ctor J (Some a) (Some b) kind = Some m
      \<longrightarrow> gtOp1 m = Some a \<and> gtOp2 m = Some b
          \<and> effects m = effects a OR effects b
               OR effects (GenTree_ctor J (GT_BOUNDS_CHECK J) (TYP_VOID J)) OR GTF_EXCEPT)"
proof (intro conjI impI)
  assume c: "GenTreeOp_ctor J oper type (Some a) (Some b) = Some n"
  from GenTreeOp_ctor_effects_slots [OF c]
  show "gtOp1 n = Some a" "gtOp2 n = Some b"
    "effects n = effects a OR effects b OR effects (GenTree_ctor J oper type)"
    by (simp_all add: slot_effects_def)
next
  assume c: "GenTreeBoundsChk_ctor J (Some a) (Some b) kind = Some m"
  from GenTreeBoundsChk_ctor_effects [OF c]
  show "gtOp1 m = Some a" "gtOp2 m = Some b"
    "effects m = effects a OR effects b
       OR effects (GenTree_ctor J (GT_BOUNDS_CHECK J) (TYP_VOID J)) OR GTF_EXCEPT"
    by (simp_all add: slot_effects_def)
qed

text \<open>
  An operand that may assign (\<open>0x01\<close>) and one that reads global state and is marked for
  reverse evaluation (\<open>0x28\<close>) give a node whose effects are \<open>0x09\<close>, and a bounds check
  whose effects are \<open>0x0D\<close>.
\<close>

theorem GenTreeOp_ctor_effects_witness:
  "(\<exists>n. GenTreeOp_ctor example_tables 7 3 (Some (example_leaf 0x01)) (Some (example_leaf 0x28))
          = Some n
       \<and> effects n = 0x09)
   \<and> (\<exists>m. GenTreeBoundsChk_ctor example_tables (Some (example_leaf 0x01))
            (Some (example_leaf 0x28)) SCK_RNGCHK_FAIL
          = Some m
       \<and> effects m = 0x0D)"
proof -
  obtain n where n:
    "GenTreeOp_ctor example_tables 7 3 (Some (example_leaf 0x01)) (Some (example_leaf 0x28)) = Some n"
    by (simp add: GenTreeOp_ctor_def GenTreeUnOp_ctor_def example_tables_def Let_def)
  obtain m where m:
    "GenTreeBoundsChk_ctor example_tables (Some (example_leaf 0x01)) (Some (example_leaf 0x28))
       SCK_RNGCHK_FAIL = Some m"
    by (simp add: GenTreeBoundsChk_ctor_def GenTreeOp_ctor_def GenTreeUnOp_ctor_def
        example_tables_def Let_def)
  from GenTreeOp_ctor_effects
    [of example_tables 7 3 "example_leaf 0x01" "example_leaf 0x28" n SCK_RNGCHK_FAIL m] n m
  have "effects n = effects (example_leaf 0x01) OR effects (example_leaf 0x28)
          OR effects (GenTree_ctor example_tables 7 3)"
    and "effects m = effects (example_leaf 0x01) OR effects (example_leaf 0x28)
          OR effects (GenTree_ctor example_tables (GT_BOUNDS_CHECK example_tables)
                (TYP_VOID example_tables)) OR GTF_EXCEPT"
    by simp_all
  then have "effects n = 0x09" "effects m = 0x0D"
    by (simp_all add: effects_def example_leaf_def example_tables_def GTF_ALL_EFFECT_value
        GTF_EMPTY_def GTF_EXCEPT_def)
  with n m show ?thesis by blast
qed

subsection \<open>Changing the operator and the value numbers\<close>

text \<open>
  C9. Changing the operator of a node with \<^verbatim>\<open>PRESERVE_VN\<close> leaves the value-number pair as
  it was, so a later query of either kind returns the original value number; changing it
  with \<^verbatim>\<open>CLEAR_VN\<close> leaves the pair with both elements \<open>NoVN\<close>. Both hold for \<^verbatim>\<open>SetOper\<close>
  and for \<^verbatim>\<open>ChangeOper\<close>, and both set the operator.
\<close>

theorem SetOper_value_numbers:
  "gtVNPair (SetOper oper PRESERVE_VN n) = gtVNPair n
   \<and> GetVN vnk (SetOper oper PRESERVE_VN n) = GetVN vnk n
   \<and> gtVNPair (SetOper oper CLEAR_VN n) = ValueNumPair_default
   \<and> GetVN vnk (SetOper oper CLEAR_VN n) = NoVN
   \<and> gtVNPair (ChangeOper oper PRESERVE_VN n) = gtVNPair n
   \<and> GetVN vnk (ChangeOper oper PRESERVE_VN n) = GetVN vnk n
   \<and> gtVNPair (ChangeOper oper CLEAR_VN n) = ValueNumPair_default
   \<and> GetVN vnk (ChangeOper oper CLEAR_VN n) = NoVN
   \<and> gtOper (SetOper oper vnUpdate n) = oper
   \<and> gtOper (ChangeOper oper vnUpdate n) = oper"
  by (simp add: SetOper_def ChangeOper_def SetOperRaw_def ClearVN_def GetVN_def
      ValueNumPair_default_def Let_def)

subsection \<open>The register count of a copy/reload node\<close>

lemma GetRegCount_loop_None:
  assumes "\<forall>j. 2 \<le> j \<and> j \<le> k \<longrightarrow> unat (regs ! (j - 2)) = REG_NA T"
  shows "GetRegCount_loop T regs k = None"
  using assms
proof (induction k)
  case 0
  then show ?case by simp
next
  case (Suc k)
  then have ih: "GetRegCount_loop T regs k = None" by simp
  show ?case
  proof (cases "Suc k > 1")
    case True
    with Suc.prems have "unat (regs ! (Suc k - 2)) = REG_NA T" by (intro Suc.prems [rule_format]) simp
    with ih show ?thesis by simp
  next
    case False
    then show ?thesis by simp
  qed
qed

lemma GetRegCount_loop_Some:
  assumes "2 \<le> i" "i \<le> k" "unat (regs ! (i - 2)) \<noteq> REG_NA T"
    and "\<forall>j. i < j \<and> j \<le> k \<longrightarrow> unat (regs ! (j - 2)) = REG_NA T"
  shows "GetRegCount_loop T regs k = Some i"
  using assms
proof (induction k)
  case 0
  then show ?case by simp
next
  case (Suc k)
  show ?case
  proof (cases "i = Suc k")
    case True
    with Suc.prems show ?thesis by simp
  next
    case False
    with Suc.prems have ik: "i \<le> k" by simp
    have na: "unat (regs ! (Suc k - 2)) = REG_NA T"
      by (rule Suc.prems(4) [rule_format]) (use ik in simp)
    from Suc.prems have "\<forall>j. i < j \<and> j \<le> k \<longrightarrow> unat (regs ! (j - 2)) = REG_NA T" by auto
    with Suc.IH Suc.prems ik have "GetRegCount_loop T regs k = Some i" by blast
    with na Suc.prems ik show ?thesis by simp
  qed
qed

lemma GetRegNumByIdx_other:
  assumes "0 < j" "GetRegNumByIdx T j n = Some r"
  shows "unat (gtOtherRegs n ! (j - 1)) = r" "j < MAX_RET_REG_COUNT T"
  using assms by (auto simp add: GetRegNumByIdx_def split: if_splits)

lemma GetRegCount_highest:
  assumes len: "length (gtOtherRegs n) = MAX_RET_REG_COUNT T - 1"
    and i: "i < MAX_RET_REG_COUNT T"
    and ri: "GetRegNumByIdx T i n = Some r" "r \<noteq> REG_NA T"
    and above: "\<forall>j. i < j \<and> j < MAX_RET_REG_COUNT T \<longrightarrow> GetRegNumByIdx T j n = Some (REG_NA T)"
  shows "GetRegCount T n = Some (Suc i)"
proof -
  have above': "\<forall>j. Suc i < j \<and> j \<le> MAX_RET_REG_COUNT T
                  \<longrightarrow> unat (gtOtherRegs n ! (j - 2)) = REG_NA T"
  proof (intro allI impI)
    fix j assume j: "Suc i < j \<and> j \<le> MAX_RET_REG_COUNT T"
    have "GetRegNumByIdx T (j - 1) n = Some (REG_NA T)"
      by (rule above [rule_format]) (use j in auto)
    from GetRegNumByIdx_other(1) [OF _ this] j
    show "unat (gtOtherRegs n ! (j - 2)) = REG_NA T"
      by (simp add: numeral_2_eq_2)
  qed
  show ?thesis
  proof (cases i)
    case 0
    with above' have "GetRegCount_loop T (gtOtherRegs n) (MAX_RET_REG_COUNT T) = None"
      by (intro GetRegCount_loop_None) auto
    moreover from ri 0 i have "GetRegNum T n = Some r"
      by (simp add: GetRegNumByIdx_def)
    ultimately show ?thesis using len ri 0 by (simp add: GetRegCount_def)
  next
    case (Suc i')
    with ri have "unat (gtOtherRegs n ! (i - 1)) \<noteq> REG_NA T"
      using GetRegNumByIdx_other(1) [of i T n r] by simp
    then have "unat (gtOtherRegs n ! (Suc i - 2)) \<noteq> REG_NA T"
      by (simp add: numeral_2_eq_2)
    with above' i Suc
    have "GetRegCount_loop T (gtOtherRegs n) (MAX_RET_REG_COUNT T) = Some (Suc i)"
      by (intro GetRegCount_loop_Some) auto
    then show ?thesis using len by (simp add: GetRegCount_def)
  qed
qed

lemma ctor_regs:
  assumes "GenTreeCopyOrReload_ctor J T oper type op1 = Some n0"
  shows "gtOtherRegs n0 = replicate (MAX_RET_REG_COUNT T - 1) (of_nat (REG_NA T))"
    and "unat (of_nat (REG_NA T) :: regNumberSmall) = REG_NA T"
    and "GetRegNum T n0 = Some (REG_NA T)"
  using assms
  by (auto simp add: GenTreeCopyOrReload_ctor_def Let_def SetRegNum_def ClearOtherRegs_def
      GetRegNum_def split: option.splits if_splits)

lemma SetRegNumByIdx_0_regs:
  assumes "SetRegNumByIdx T r 0 n = Some n'"
  shows "gtOtherRegs n' = gtOtherRegs n"
  using assms
  by (auto simp add: SetRegNumByIdx_def SetRegNum_def Let_def split: if_splits)

lemma SetRegNumByIdx_other_regs:
  assumes "SetRegNumByIdx T r idx n = Some n'" "0 < idx"
  shows "gtOtherRegs n' = (gtOtherRegs n)[idx - 1 := of_nat r]"
    and "unat (of_nat r :: regNumberSmall) = r" and "idx < MAX_RET_REG_COUNT T"
    and "idx - 1 < length (gtOtherRegs n)"
  using assms
  by (auto simp add: SetRegNumByIdx_def split: if_splits)

text \<open>
  C8. A copy/reload node that is constructed and then given a register at index 0 and one
  at index 2 reports a register count of 3 and "no register" (\<^verbatim>\<open>REG_NA\<close>) at index 1.
  In general, when \<open>i\<close> is the highest index at which a register is assigned,
  \<^verbatim>\<open>GetRegCount\<close> returns \<open>i + 1\<close>: the count is derived from the slots, not stored.
\<close>

theorem CopyOrReload_reg_count:
  "(GenTreeCopyOrReload_ctor J T oper type op1 = Some n0
      \<and> SetRegNumByIdx T r0 0 n0 = Some n1
      \<and> SetRegNumByIdx T r2 2 n1 = Some n2
      \<and> r2 \<noteq> REG_NA T
    \<longrightarrow> GetRegCount T n2 = Some 3 \<and> GetRegNumByIdx T 1 n2 = Some (REG_NA T))
   \<and> (length (gtOtherRegs n) = MAX_RET_REG_COUNT T - 1
      \<and> i < MAX_RET_REG_COUNT T
      \<and> GetRegNumByIdx T i n = Some r \<and> r \<noteq> REG_NA T
      \<and> (\<forall>j. i < j \<and> j < MAX_RET_REG_COUNT T \<longrightarrow> GetRegNumByIdx T j n = Some (REG_NA T))
    \<longrightarrow> GetRegCount T n = Some (Suc i))"
proof (intro conjI impI)
  assume "length (gtOtherRegs n) = MAX_RET_REG_COUNT T - 1
      \<and> i < MAX_RET_REG_COUNT T
      \<and> GetRegNumByIdx T i n = Some r \<and> r \<noteq> REG_NA T
      \<and> (\<forall>j. i < j \<and> j < MAX_RET_REG_COUNT T \<longrightarrow> GetRegNumByIdx T j n = Some (REG_NA T))"
  then show "GetRegCount T n = Some (Suc i)"
    using GetRegCount_highest by blast
next
  assume a: "GenTreeCopyOrReload_ctor J T oper type op1 = Some n0
      \<and> SetRegNumByIdx T r0 0 n0 = Some n1
      \<and> SetRegNumByIdx T r2 2 n1 = Some n2
      \<and> r2 \<noteq> REG_NA T"
  let ?m = "MAX_RET_REG_COUNT T"
  let ?na = "of_nat (REG_NA T) :: regNumberSmall"
  from a have c: "gtOtherRegs n0 = replicate (?m - 1) ?na" "unat ?na = REG_NA T"
    using ctor_regs by blast+
  from a have r1: "gtOtherRegs n1 = gtOtherRegs n0" using SetRegNumByIdx_0_regs by blast
  from a have s2: "SetRegNumByIdx T r2 2 n1 = Some n2" by simp
  note s = SetRegNumByIdx_other_regs [OF s2]
  from s c r1 have regs: "gtOtherRegs n2 = (replicate (?m - 1) ?na)[1 := of_nat r2]"
    and m: "2 < ?m" and fit: "unat (of_nat r2 :: regNumberSmall) = r2"
    by simp_all
  have len: "length (gtOtherRegs n2) = ?m - 1" by (simp add: regs)
  have idx: "GetRegNumByIdx T j n2 = Some (if j = 2 then r2 else REG_NA T)"
    if "0 < j" "j < ?m" for j
    using that m c(2) fit by (auto simp add: GetRegNumByIdx_def regs nth_list_update)
  show "GetRegNumByIdx T 1 n2 = Some (REG_NA T)"
    using idx [of 1] m by simp
  have "GetRegCount T n2 = Some (Suc 2)"
  proof (rule GetRegCount_highest [OF len m])
    show "GetRegNumByIdx T 2 n2 = Some r2" using idx [of 2] m by simp
    show "r2 \<noteq> REG_NA T" using a by simp
    show "\<forall>j. 2 < j \<and> j < ?m \<longrightarrow> GetRegNumByIdx T j n2 = Some (REG_NA T)"
      using idx by auto
  qed
  then show "GetRegCount T n2 = Some 3" by (simp add: numeral_3_eq_3)
qed

text \<open>
  With the example target: the constructor leaves every register at 64; after registers 3
  and 7 are assigned at indices 0 and 2 the count is 3 and index 1 reports 64; with only
  index 0 assigned the count is 1.
\<close>

theorem CopyOrReload_reg_count_witness:
  "GenTreeCopyOrReload_ctor example_tables example_target 5 2 (Some (example_leaf 0))
     = Some (example_copy GT_REGTAG_REG 64 [64, 64, 64])
   \<and> SetRegNumByIdx example_target 3 0 (example_copy GT_REGTAG_REG 64 [64, 64, 64])
     = Some (example_copy GT_REGTAG_REG 3 [64, 64, 64])
   \<and> SetRegNumByIdx example_target 7 2 (example_copy GT_REGTAG_REG 3 [64, 64, 64])
     = Some (example_copy GT_REGTAG_REG 3 [64, 7, 64])
   \<and> GetRegCount example_target (example_copy GT_REGTAG_REG 3 [64, 7, 64]) = Some 3
   \<and> GetRegNumByIdx example_target 1 (example_copy GT_REGTAG_REG 3 [64, 7, 64]) = Some 64
   \<and> GetRegCount example_target (example_copy GT_REGTAG_REG 3 [64, 64, 64]) = Some 1"
proof -
  let ?T = example_target
  let ?n0 = "example_copy GT_REGTAG_REG 64 [64, 64, 64]"
  let ?n1 = "example_copy GT_REGTAG_REG 3 [64, 64, 64]"
  let ?n2 = "example_copy GT_REGTAG_REG 3 [64, 7, 64]"
  have c: "GenTreeCopyOrReload_ctor example_tables ?T 5 2 (Some (example_leaf 0)) = Some ?n0"
    by (simp add: GenTreeCopyOrReload_ctor_def GenTreeUnOp_ctor_def example_tables_def
        example_target_def example_copy_def example_leaf_def Let_def SetRegNum_def
        ClearOtherRegs_def GenTree.defs GenTreeUnOp.defs GenTreeCopyOrReload.defs
        GTF_EMPTY_def GTF_ALL_EFFECT_value numeral_3_eq_3)
  have s0: "SetRegNumByIdx ?T 3 0 ?n0 = Some ?n1"
    by (simp add: SetRegNumByIdx_def SetRegNum_def example_target_def example_copy_def Let_def)
  have s2: "SetRegNumByIdx ?T 7 2 ?n1 = Some ?n2"
    by (simp add: SetRegNumByIdx_def example_target_def example_copy_def)
  have r2: "(7::nat) \<noteq> REG_NA ?T" by (simp add: example_target_def)
  from CopyOrReload_reg_count [of example_tables ?T 5 2 "Some (example_leaf 0)" ?n0 3 ?n1 7 ?n2,
      THEN conjunct1] c s0 s2 r2
  have a: "GetRegCount ?T ?n2 = Some 3 \<and> GetRegNumByIdx ?T 1 ?n2 = Some (REG_NA ?T)"
    by blast
  have "length (gtOtherRegs ?n1) = MAX_RET_REG_COUNT ?T - 1 \<and> 0 < MAX_RET_REG_COUNT ?T
      \<and> GetRegNumByIdx ?T 0 ?n1 = Some 3 \<and> (3::nat) \<noteq> REG_NA ?T
      \<and> (\<forall>j. 0 < j \<and> j < MAX_RET_REG_COUNT ?T \<longrightarrow> GetRegNumByIdx ?T j ?n1 = Some (REG_NA ?T))"
    by (auto simp add: example_target_def example_copy_def GetRegNumByIdx_def GetRegNum_def
        nth_Cons split: nat.splits)
  with CopyOrReload_reg_count [of example_tables ?T 5 2 "Some (example_leaf 0)" ?n0 3 ?n1 7 ?n2
      ?n1 0 3, THEN conjunct2]
  have b: "GetRegCount ?T ?n1 = Some 1" by simp
  from a b c s0 s2 show ?thesis by (simp add: example_target_def)
qed

subsection \<open>The use-edge iterator\<close>

declare use_edges_from.simps [simp del]

lemma use_edges_from_exhausted: "m_state it = -1 \<Longrightarrow> use_edges_from it = []"
  by (subst use_edges_from.simps) (simp add: iterator_neq_def iterator_eq_def UseEdgesEnd_def)

lemma use_edges_from_live:
  "m_state it \<noteq> -1 \<Longrightarrow> use_edges_from it = m_edge it # use_edges_from (iterator_inc it)"
  by (subst use_edges_from.simps) (simp add: iterator_neq_def iterator_eq_def UseEdgesEnd_def)

text \<open>
  C7. The comparison of two use-edge iterators is a total function. Two exhausted
  iterators are equal whatever their nodes; two iterators of different nodes are equal
  exactly when both are exhausted, and unequal otherwise.
\<close>

theorem iterator_eq_different_nodes:
  "(m_state a = -1 \<and> m_state b = -1 \<longrightarrow> iterator_eq a b)
   \<and> (m_node a \<noteq> m_node b \<longrightarrow>
        (iterator_eq a b \<longleftrightarrow> m_state a = -1 \<and> m_state b = -1)
        \<and> (iterator_neq a b \<longleftrightarrow> \<not> (m_state a = -1 \<and> m_state b = -1)))"
  by (auto simp add: iterator_eq_def iterator_neq_def)

text \<open>
  The iterators of a binary node and of a call differ; the iterator of a binary node
  differs from the end iterator; the iterator of a leaf equals the end iterator.
\<close>

theorem iterator_eq_different_nodes_witness:
  "\<not> iterator_eq (UseEdgesBegin (OpNode (example_binop 0x05))) (UseEdgesBegin (CallNode example_call))
   \<and> \<not> iterator_eq (UseEdgesBegin (OpNode (example_binop 0x05))) UseEdgesEnd
   \<and> iterator_eq (UseEdgesBegin (LeafNode (example_leaf 0))) UseEdgesEnd"
  using iterator_eq_different_nodes
      [of "UseEdgesBegin (OpNode (example_binop 0x05))" "UseEdgesBegin (CallNode example_call)"]
    iterator_eq_different_nodes
      [of "UseEdgesBegin (OpNode (example_binop 0x05))" UseEdgesEnd]
    iterator_eq_different_nodes
      [of "UseEdgesBegin (LeafNode (example_leaf 0))" UseEdgesEnd]
  by (simp add: UseEdgesBegin_def UseEdgesEnd_def SetEntryStateForBinOp_def example_binop_def
      example_call_def AdvanceCall_iterator_def Terminate_iterator_def GTF_REVERSE_OPS_def)

text \<open>
  C6. For a binary node with both operands present the iterator yields exactly the two
  operand slots: the second operand's slot and then the first's when
  \<^verbatim>\<open>GTF_REVERSE_OPS\<close> is set, the first's and then the second's when it is clear.
\<close>

theorem binop_use_edges:
  assumes "gtOp1 b = Some x" "gtOp2 b = Some y"
  shows "use_edges (OpNode b) =
           (if (gtFlags b AND GTF_REVERSE_OPS) \<noteq> 0
            then [Some gtOp2_slot, Some gtOp1_slot]
            else [Some gtOp1_slot, Some gtOp2_slot])"
  using assms
  by (simp add: use_edges_def UseEdgesBegin_def SetEntryStateForBinOp_def
      use_edges_from_live iterator_inc_def AdvanceBinOp_iterator_def Terminate_iterator_def
      use_edges_from_exhausted)

text \<open>The example node with and without \<^verbatim>\<open>GTF_REVERSE_OPS\<close> (\<open>0x20\<close>) among its flags.\<close>

theorem binop_use_edges_witness:
  "use_edges (OpNode (example_binop 0x25)) = [Some gtOp2_slot, Some gtOp1_slot]
   \<and> use_edges (OpNode (example_binop 0x05)) = [Some gtOp1_slot, Some gtOp2_slot]"
  using binop_use_edges [of "example_binop 0x25" "example_leaf 0x01" "example_leaf 0x04"]
    binop_use_edges [of "example_binop 0x05" "example_leaf 0x01" "example_leaf 0x04"]
  by (simp add: example_binop_def GTF_REVERSE_OPS_def)

subsection \<open>The field-sequence store\<close>

lemma Equals_iff: "Equals a b \<longleftrightarrow> a = b" for a b :: FieldSeqNode
  by (cases a, cases b) (simp add: Equals_def)

lemma Lookup_Some_entry:
  "Lookup entries key = Some v \<Longrightarrow> (key, v) \<in> set entries"
  by (induction entries) (auto simp add: Equals_iff split: if_splits)

lemma Lookup_sound:
  assumes "canonical_store st" "Lookup (m_canonMap st) key = Some v"
  shows "v < length (m_nodes st) \<and> m_nodes st ! v = key"
  using assms Lookup_Some_entry [of "m_canonMap st" key v]
  by (auto simp add: canonical_store_def list_all_iff)

lemma canonical_store_nodes:
  assumes "canonical_store st" "i < length (m_nodes st)"
  shows "Lookup (m_canonMap st) (m_nodes st ! i) = Some i"
    and "tail_ok i (m_next (m_nodes st ! i))"
  using assms by (auto simp add: canonical_store_def list_all_iff)

lemma later_store_refl: "later_store st st"
  by (simp add: later_store_def)

lemma later_store_append:
  "later_store st st' \<longleftrightarrow> (\<exists>ext. m_nodes st' = m_nodes st @ ext)"
proof
  assume "later_store st st'"
  then have "m_nodes st' = m_nodes st @ drop (length (m_nodes st)) (m_nodes st')"
    by (metis append_take_drop_id later_store_def)
  then show "\<exists>ext. m_nodes st' = m_nodes st @ ext" ..
next
  assume "\<exists>ext. m_nodes st' = m_nodes st @ ext"
  then show "later_store st st'" by (auto simp add: later_store_def)
qed

lemma later_store_trans:
  "later_store st st' \<Longrightarrow> later_store st' st'' \<Longrightarrow> later_store st st''"
  by (auto simp add: later_store_append)

lemma denotes_append: "denotes nodes p ws \<Longrightarrow> denotes (nodes @ ext) p ws"
proof (induction rule: denotes.induct)
  case (denotes_null nodes)
  show ?case by (rule denotes.denotes_null)
next
  case (denotes_node i nodes ws)
  have "denotes (nodes @ ext) (SeqAddr i) (m_fieldHandleAndKind ((nodes @ ext) ! i) # ws)"
    using denotes_node by (intro denotes.denotes_node) (simp_all add: nth_append)
  with denotes_node show ?case by (simp add: nth_append)
qed

lemma denotes_later:
  "later_store st st' \<Longrightarrow> denotes (m_nodes st) p ws \<Longrightarrow> denotes (m_nodes st') p ws"
  by (auto simp add: later_store_append denotes_append)

lemma denotes_valid:
  "denotes nodes p ws \<Longrightarrow> p = SeqNull \<or> (\<exists>j. p = SeqAddr j \<and> j < length nodes)"
  by (erule denotes.cases) auto

inductive_cases denotes_NilE: "denotes nodes p []"
inductive_cases denotes_ConsE: "denotes nodes p (w # ws)"
inductive_cases denotes_SeqNullE: "denotes nodes SeqNull ws"

lemma denotes_inj:
  assumes "canonical_store st"
  shows "denotes (m_nodes st) p ws \<Longrightarrow> denotes (m_nodes st) q ws \<Longrightarrow> p = q"
proof (induction "m_nodes st" p ws arbitrary: q rule: denotes.induct)
  case denotes_null
  from denotes_null.prems show ?case by (rule denotes_NilE) simp
next
  case (denotes_node i ws)
  from denotes_node.prems obtain j where q: "q = SeqAddr j" and j: "j < length (m_nodes st)"
    and key: "m_fieldHandleAndKind (m_nodes st ! i) = m_fieldHandleAndKind (m_nodes st ! j)"
    and tl: "denotes (m_nodes st) (m_next (m_nodes st ! j)) ws"
    by (rule denotes_ConsE) blast
  from denotes_node.hyps(3) [OF tl] have nx: "m_next (m_nodes st ! i) = m_next (m_nodes st ! j)" .
  have eq: "m_nodes st ! i = m_nodes st ! j"
    by (rule FieldSeqNode.equality) (simp_all only: key nx, simp)
  have "Some i = Lookup (m_canonMap st) (m_nodes st ! i)"
    using canonical_store_nodes(1) [OF assms denotes_node.hyps(1)] by (rule sym)
  also have "\<dots> = Lookup (m_canonMap st) (m_nodes st ! j)"
    by (simp only: eq)
  also have "\<dots> = Some j"
    using assms j by (rule canonical_store_nodes(1))
  finally have "i = j" by (simp only: option.inject)
  with q show ?case by (simp only:)
qed

lemma denotes_length:
  assumes "canonical_store st"
  shows "denotes (m_nodes st) p ws \<Longrightarrow> length ws \<le> (case p of SeqAddr i \<Rightarrow> Suc i | _ \<Rightarrow> 0)"
proof (induction "m_nodes st" p ws rule: denotes.induct)
  case denotes_null
  show ?case by simp
next
  case (denotes_node i ws)
  from canonical_store_nodes(2) [OF assms denotes_node.hyps(1)] denotes_node.hyps(3)
  show ?case by (auto simp add: tail_ok_def split: FieldSeqPtr.splits)
qed

lemma denotes_length_arena:
  assumes "canonical_store st" "denotes (m_nodes st) p ws"
  shows "length ws \<le> length (m_nodes st)"
  using denotes_length [OF assms] denotes_valid [OF assms(2)] by auto

lemma canonical_node_props:
  assumes st: "canonical_store st"
    and tail: "m_next fsn = SeqNull \<or> (\<exists>j. m_next fsn = SeqAddr j \<and> j < length (m_nodes st))"
    and res: "canonical_node st fsn = (r, st')"
  shows "canonical_store st' \<and> later_store st st'
         \<and> (\<exists>a. r = SeqAddr a \<and> a < length (m_nodes st') \<and> m_nodes st' ! a = fsn)"
proof (cases "Lookup (m_canonMap st) fsn")
  case (Some v)
  with res have "r = SeqAddr v" "st' = st" by (simp_all add: canonical_node_def)
  with Lookup_sound [OF st Some] st show ?thesis by (simp add: later_store_refl)
next
  case None
  let ?n = "length (m_nodes st)"
  from None res have r: "r = SeqAddr ?n"
    and st': "st' = st\<lparr>m_nodes := m_nodes st @ [fsn], m_canonMap := (fsn, ?n) # m_canonMap st\<rparr>"
    by (simp_all add: canonical_node_def Let_def)
  have fresh: "m_nodes st ! i \<noteq> fsn" if "i < ?n" for i
    using canonical_store_nodes(1) [OF st that] None by auto
  have entries: "list_all (\<lambda>(k, v). v < length (m_nodes st') \<and> m_nodes st' ! v = k) (m_canonMap st')"
    using st by (auto simp add: st' canonical_store_def list_all_iff nth_append)
  have looks: "Lookup (m_canonMap st') (m_nodes st' ! i) = Some i" if "i < length (m_nodes st')" for i
  proof (cases "i < ?n")
    case True
    with fresh [OF True] canonical_store_nodes(1) [OF st True] show ?thesis
      by (simp add: st' nth_append Equals_iff)
  next
    case False
    with that have "i = ?n" by (simp add: st')
    then show ?thesis by (simp add: st' Equals_iff)
  qed
  have tails: "tail_ok i (m_next (m_nodes st' ! i))" if "i < length (m_nodes st')" for i
  proof (cases "i < ?n")
    case True
    with canonical_store_nodes(2) [OF st True] show ?thesis by (simp add: st' nth_append)
  next
    case False
    with that have "i = ?n" by (simp add: st')
    with tail show ?thesis by (auto simp add: st' tail_ok_def)
  qed
  have "canonical_store st'"
    unfolding canonical_store_def using entries looks tails by (simp add: list_all_iff)
  moreover have "later_store st st'" by (simp add: st' later_store_def)
  moreover have "?n < length (m_nodes st') \<and> m_nodes st' ! ?n = fsn" by (simp add: st')
  ultimately show ?thesis using r by blast
qed

lemma unpack_pack: "(w AND NOT FIELD_KIND_MASK) OR (w AND FIELD_KIND_MASK) = w"
  by (rule bit_eqI) (auto simp add: bit_and_iff bit_or_iff bit_not_iff)

lemma Append_walk_denotes:
  assumes st: "canonical_store st" and b: "denotes (m_nodes st) b ys"
  shows "denotes (m_nodes st) a xs \<Longrightarrow> length xs \<le> fuel \<Longrightarrow>
     \<exists>r st'. Append_walk fuel st a b = Some (r, st') \<and> canonical_store st'
        \<and> later_store st st' \<and> denotes (m_nodes st') r (xs @ ys)"
proof (induction "m_nodes st" a xs arbitrary: fuel rule: denotes.induct)
  case denotes_null
  from denotes_valid [OF b] have "b \<noteq> NotAField" by (auto simp add: NotAField_def)
  with st b show ?case by (auto simp add: NotAField_def later_store_refl)
next
  case (denotes_node i ws)
  let ?node = "m_nodes st ! i"
  from denotes_valid [OF b] have bn: "b \<noteq> NotAField" by (auto simp add: NotAField_def)
  have a: "denotes (m_nodes st) (SeqAddr i) (m_fieldHandleAndKind ?node # ws)"
    using denotes_node.hyps(1,2) by (rule denotes.denotes_node)
  show ?case
  proof (cases "b = SeqNull")
    case True
    with b have "ys = []" by (auto elim: denotes_SeqNullE)
    with True st a show ?thesis by (auto simp add: NotAField_def later_store_refl)
  next
    case False
    from denotes_node.prems obtain fuel' where fuel: "fuel = Suc fuel'" "length ws \<le> fuel'"
      by (cases fuel) auto
    from denotes_node.hyps(3) [OF fuel(2)] obtain tmp st1
      where walk: "Append_walk fuel' st (m_next ?node) b = Some (tmp, st1)"
        and st1: "canonical_store st1" "later_store st st1"
        and tmp: "denotes (m_nodes st1) tmp (ws @ ys)"
      by blast
    let ?fsn = "FieldSeqNode_ctor (GetFieldHandleValue ?node) tmp (GetKind ?node)"
    have fsn: "m_fieldHandleAndKind ?fsn = m_fieldHandleAndKind ?node" "m_next ?fsn = tmp"
      by (simp_all add: FieldSeqNode_ctor_def GetFieldHandleValue_def GetKind_def unpack_pack)
    obtain r st2 where cn: "canonical_node st1 ?fsn = (r, st2)" by (cases "canonical_node st1 ?fsn")
    from denotes_valid [OF tmp] fsn(2)
    have "m_next ?fsn = SeqNull \<or> (\<exists>j. m_next ?fsn = SeqAddr j \<and> j < length (m_nodes st1))"
      by simp
    from canonical_node_props [OF st1(1) this cn] obtain k
      where st2: "canonical_store st2" "later_store st1 st2"
        and k: "r = SeqAddr k" "k < length (m_nodes st2)" "m_nodes st2 ! k = ?fsn"
      by blast
    have "denotes (m_nodes st2) (m_next (m_nodes st2 ! k)) (ws @ ys)"
      using denotes_later [OF st2(2) tmp] k(3) fsn(2) by simp
    from denotes.denotes_node [OF k(2) this]
    have "denotes (m_nodes st2) r ((m_fieldHandleAndKind ?node # ws) @ ys)"
      using k(1,3) fsn(1) by simp
    moreover have "Append_walk fuel st (SeqAddr i) b = Some (r, st2)"
      using False bn denotes_node.hyps(1) fuel(1) walk cn
      by (simp add: NotAField_def Let_def)
    ultimately show ?thesis
      using st2(1) later_store_trans [OF st1(2) st2(2)] by blast
  qed
qed

lemma Append_denotes:
  assumes "canonical_store st" "denotes (m_nodes st) a xs" "denotes (m_nodes st) b ys"
  shows "\<exists>r st'. Append st a b = Some (r, st') \<and> canonical_store st'
        \<and> later_store st st' \<and> denotes (m_nodes st') r (xs @ ys)"
  unfolding Append_def
  using Append_walk_denotes [OF assms(1,3,2) denotes_length_arena [OF assms(1,2)]] .

lemma CreateSingleton_denotes:
  assumes "canonical_store st" "fieldHnd \<noteq> NO_FIELD_HANDLE"
  shows "\<exists>r st'. CreateSingleton st fieldHnd fieldKind = Some (r, st') \<and> canonical_store st'
        \<and> later_store st st' \<and> denotes (m_nodes st') r [fieldHnd OR fieldKind]"
proof -
  let ?fsn = "FieldSeqNode_ctor fieldHnd SeqNull fieldKind"
  obtain r st' where cn: "canonical_node st ?fsn = (r, st')" by (cases "canonical_node st ?fsn")
  have "m_next ?fsn = SeqNull \<or> (\<exists>j. m_next ?fsn = SeqAddr j \<and> j < length (m_nodes st))"
    by (simp add: FieldSeqNode_ctor_def)
  from canonical_node_props [OF assms(1) this cn] obtain k
    where st': "canonical_store st'" "later_store st st'"
      and k: "r = SeqAddr k" "k < length (m_nodes st')" "m_nodes st' ! k = ?fsn"
    by blast
  have "denotes (m_nodes st') (m_next (m_nodes st' ! k)) []"
    using k(3) by (simp add: FieldSeqNode_ctor_def denotes.denotes_null)
  from denotes.denotes_node [OF k(2) this]
  have "denotes (m_nodes st') r [fieldHnd OR fieldKind]"
    using k(1,3) by (simp add: FieldSeqNode_ctor_def)
  with cn assms(2) st' show ?thesis by (simp add: CreateSingleton_def)
qed

lemma run_plan_denotes:
  assumes "canonical_store st" "list_all (\<lambda>(h, k). h \<noteq> NO_FIELD_HANDLE) (plan_fields p)"
  shows "\<exists>r st'. run_plan st p = Some (r, st') \<and> canonical_store st'
        \<and> later_store st st' \<and> denotes (m_nodes st') r (packed (plan_fields p))"
  using assms
proof (induction p arbitrary: st)
  case (Singleton h k)
  then have "h \<noteq> NO_FIELD_HANDLE" by simp
  from CreateSingleton_denotes [OF Singleton.prems(1) this, of k]
  show ?case by (simp add: packed_def)
next
  case (Concat p q)
  from Concat.prems(2) have nn: "list_all (\<lambda>(h, k). h \<noteq> NO_FIELD_HANDLE) (plan_fields p)"
    "list_all (\<lambda>(h, k). h \<noteq> NO_FIELD_HANDLE) (plan_fields q)" by simp_all
  from Concat.IH(1) [OF Concat.prems(1) nn(1)] obtain a st1
    where p: "run_plan st p = Some (a, st1)"
      and st1: "canonical_store st1" "later_store st st1"
      and a: "denotes (m_nodes st1) a (packed (plan_fields p))"
    by blast
  from Concat.IH(2) [OF st1(1) nn(2)] obtain b st2
    where q: "run_plan st1 q = Some (b, st2)"
      and st2: "canonical_store st2" "later_store st1 st2"
      and b: "denotes (m_nodes st2) b (packed (plan_fields q))"
    by blast
  from Append_denotes [OF st2(1) denotes_later [OF st2(2) a] b] obtain r st3
    where ap: "Append st2 a b = Some (r, st3)"
      and st3: "canonical_store st3" "later_store st2 st3"
      and r: "denotes (m_nodes st3) r (packed (plan_fields p) @ packed (plan_fields q))"
    by blast
  have "run_plan st (Concat p q) = Some (r, st3)" using p q ap by simp
  moreover have "later_store st st3"
    using st1(2) st2(2) st3(2) by (blast intro: later_store_trans)
  moreover have "denotes (m_nodes st3) r (packed (plan_fields (Concat p q)))"
    using r by (simp add: packed_def)
  ultimately show ?case using st3(1) by blast
qed

lemma canonical_store_empty: "canonical_store FieldSeqStore_ctor"
  by (simp add: canonical_store_def FieldSeqStore_ctor_def)

text \<open>
  C2. Take two constructions of the same chain of (field handle, field kind) pairs, each
  any tree of \<^verbatim>\<open>CreateSingleton\<close> and \<^verbatim>\<open>Append\<close> calls, grouped in any way, with no null
  handle. In a store that satisfies its invariant the first construction succeeds and
  keeps the invariant, and the second, run in any later state of the store, whatever was
  built in between, returns the very same pointer: structurally identical sequences have
  one canonical address.
\<close>

theorem canonical_handles:
  assumes "canonical_store st1"
    and "list_all (\<lambda>(h, k). h \<noteq> NO_FIELD_HANDLE) (plan_fields p)"
    and "plan_fields q = plan_fields p"
  shows "\<exists>s1 st1'. run_plan st1 p = Some (s1, st1')
           \<and> canonical_store st1' \<and> later_store st1 st1'
           \<and> (\<forall>st2. canonical_store st2 \<and> later_store st1' st2
                 \<longrightarrow> (\<exists>st2'. run_plan st2 q = Some (s1, st2')))"
proof -
  from run_plan_denotes [OF assms(1,2)] obtain s1 st1'
    where b1: "run_plan st1 p = Some (s1, st1')"
      and st1': "canonical_store st1'" "later_store st1 st1'"
      and s1: "denotes (m_nodes st1') s1 (packed (plan_fields p))"
    by blast
  have "\<exists>st2'. run_plan st2 q = Some (s1, st2')"
    if st2: "canonical_store st2" "later_store st1' st2" for st2
  proof -
    from assms(2,3) have "list_all (\<lambda>(h, k). h \<noteq> NO_FIELD_HANDLE) (plan_fields q)"
      by simp
    from run_plan_denotes [OF st2(1) this] assms(3) obtain s2 st2'
      where b2: "run_plan st2 q = Some (s2, st2')"
        and st2': "canonical_store st2'" "later_store st2 st2'"
        and s2: "denotes (m_nodes st2') s2 (packed (plan_fields p))"
      by auto
    have "denotes (m_nodes st2') s1 (packed (plan_fields p))"
      using denotes_later [OF st2'(2) denotes_later [OF st2(2) s1]] .
    from denotes_inj [OF st2'(1) this s2] b2 show ?thesis by simp
  qed
  with b1 st1' show ?thesis by blast
qed

text \<open>
  In the empty store the left-grouped construction ends at address 5 and leaves the
  example store; a fourth field is then entered at address 6; the right-grouped
  construction, run in the store so extended, returns address 5 again.
\<close>

lemmas eval_store = CreateSingleton_def canonical_node_def FieldSeqNode_ctor_def Equals_def
  NO_FIELD_HANDLE_def Instance_def SimpleStatic_def Append_def NotAField_def Let_def
  GetFieldHandleValue_def GetKind_def FIELD_KIND_MASK_def example_nodes_def

theorem canonical_handles_witness:
  "run_plan FieldSeqStore_ctor example_plan_left = Some (SeqAddr 5, example_store)
   \<and> CreateSingleton example_store 0x4000 Instance = Some (SeqAddr 6, example_store_later)
   \<and> (\<exists>st'. run_plan example_store_later example_plan_right = Some (SeqAddr 5, st'))"
proof -
  have b1: "run_plan FieldSeqStore_ctor example_plan_left = Some (SeqAddr 5, example_store)"
    by (simp add: example_store_def example_plan_left_def FieldSeqStore_ctor_def eval_store)
  have b2: "CreateSingleton example_store 0x4000 Instance = Some (SeqAddr 6, example_store_later)"
    by (simp add: example_store_def example_store_later_def eval_store)
  have nn: "list_all (\<lambda>(h, k). h \<noteq> NO_FIELD_HANDLE) (plan_fields example_plan_left)"
    by (simp add: example_plan_left_def NO_FIELD_HANDLE_def)
  have same: "plan_fields example_plan_right = plan_fields example_plan_left"
    by (simp add: example_plan_left_def example_plan_right_def)
  have c: "canonical_store example_store_later"
    by (simp add: example_store_later_def example_store_def example_nodes_def
        canonical_store_def upt_rec Equals_def tail_ok_def)
  have l: "later_store example_store example_store_later"
    by (simp add: example_store_def example_store_later_def later_store_def)
  from canonical_handles [OF canonical_store_empty nn same] obtain s1 st1'
    where "run_plan FieldSeqStore_ctor example_plan_left = Some (s1, st1')"
      and all: "\<forall>st2. canonical_store st2 \<and> later_store st1' st2
                 \<longrightarrow> (\<exists>st2'. run_plan st2 example_plan_right = Some (s1, st2'))"
    by blast
  with b1 have "s1 = SeqAddr 5" "st1' = example_store" by simp_all
  with all c l
  have "\<exists>st'. run_plan example_store_later example_plan_right = Some (SeqAddr 5, st')"
    by blast
  with b1 b2 show ?thesis by blast
qed

text \<open>
  C3. \<^verbatim>\<open>NotAField()\<close> is absorbing for \<^verbatim>\<open>Append\<close> on both sides: for every pointer \<open>s\<close>, the
  sentinel itself included, and every store, both \<^verbatim>\<open>Append(NotAField(), s)\<close> and
  \<^verbatim>\<open>Append(s, NotAField())\<close> return \<^verbatim>\<open>NotAField()\<close> and leave the store as it is.
\<close>

theorem NotAField_absorbing:
  "Append store NotAField s = Some (NotAField, store)
   \<and> Append store s NotAField = Some (NotAField, store)"
  by (simp add: Append_def)

end
